theory Spec2Isabelle
  imports Main "HOL-Library.AList"
begin

section \<open>Values of the ingestion job\<close>

text \<open>
  The program is \<^verbatim>\<open>DeviceRaw.py\<close>: a poll loop that fetches device records over HTTP,
  sanitizes every field and inserts one row per record, plus a liveness endpoint.

  A device record is what \<^verbatim>\<open>res.json()\<close> yields: JSON data as Python values. A
  \<^verbatim>\<open>dict\<close> is kept as its list of items in insertion order (\<^verbatim>\<open>device.items()\<close>);
  lookups go through \<open>map_of\<close> and stores through \<open>AList.update\<close>, which replaces a
  present key in place and appends an absent one, as the assignment \<^verbatim>\<open>data[k] = v\<close> does.
  A float is kept as mantissa and exponent: no operation of the program looks inside one.
  A \<^verbatim>\<open>str\<close> value is the list of its code points; \<open>str\<close> writes one from a literal. The
  keys of a \<^verbatim>\<open>dict\<close> and the names of columns are kept as literals.
\<close>

record datetime =
  year :: nat
  month :: nat
  day :: nat
  hour :: nat
  minute :: nat
  second :: nat
  microsecond :: nat

datatype pyval =
    PNone
  | PBool bool
  | PInt int
  | PFloat int int
  | PStr "nat list"
  | PList "pyval list"
  | PDict "(string \<times> pyval) list"
  | PDatetime datetime

abbreviation str :: "string \<Rightarrow> nat list" where
  "str s \<equiv> map of_char s"

text \<open>The exceptions that the program, its libraries and its environment raise; all are
  subclasses of \<^verbatim>\<open>Exception\<close>.\<close>

datatype exn =
    AttributeError
  | TypeError
  | ValueError
  | KeyError string
  | JSONDecodeError
  | HTTPError nat
  | RequestException
  | ProgrammingError
  | DatabaseError
  | OperationalError
  | InterfaceError

section \<open>Helpers: \<^verbatim>\<open>safe\<close> and \<^verbatim>\<open>safe_timestamp\<close>\<close>

text \<open>
  \<^verbatim>\<open>value in [None, "", "null", "NULL", "NA"]\<close> compares with \<^verbatim>\<open>==\<close>. Every element
  of that list is \<^verbatim>\<open>None\<close> or a \<^verbatim>\<open>str\<close>, and among JSON values only \<^verbatim>\<open>None\<close>
  equals \<^verbatim>\<open>None\<close> and only the same string equals a string, so the test is membership
  up to structural equality.
\<close>

definition safe :: "pyval \<Rightarrow> pyval \<Rightarrow> pyval" where
  "safe v dflt =
     (if v \<in> set [PNone, PStr (str ''''), PStr (str ''null''), PStr (str ''NULL''),
                   PStr (str ''NA'')] then dflt
      else v)"

subsection \<open>\<^verbatim>\<open>datetime.strptime(value, "%Y-%m-%d %H:%M:%S.%f")\<close>\<close>

text \<open>
  The library turns the format into a regular expression, one named group per directive,
  every run of white space of the format into \<^verbatim>\<open>\s+\<close>, and applies \<^verbatim>\<open>re.match\<close>.
  A regular expression is modelled by its backtracking matcher: the list of all ways to
  match a prefix of the input, in the order in which the engine tries them (alternatives
  left to right, repetition greedy). \<^verbatim>\<open>re.match\<close> takes the first. The input is a
  \<^verbatim>\<open>str\<close>, a list of code points.
\<close>

type_synonym matcher = "nat list \<Rightarrow> (nat list \<times> nat list) list"

text \<open>A class \<^verbatim>\<open>[a-b]\<close> of the pattern: the code points from \<open>a\<close> to \<open>b\<close>.\<close>

definition in_range :: "char \<Rightarrow> char \<Rightarrow> nat \<Rightarrow> bool" where
  "in_range lo hi c = (of_char lo \<le> c \<and> c \<le> of_char hi)"

text \<open>
  The pattern is a \<^verbatim>\<open>str\<close> and is compiled without \<^verbatim>\<open>re.ASCII\<close>, so \<^verbatim>\<open>\d\<close> matches
  every decimal digit of Unicode (category \<^verbatim>\<open>Nd\<close>), and \<^verbatim>\<open>int\<close> reads every one of
  them. These digits come in runs of ten, from zero to nine; \<open>zero_digits\<close> lists the code
  point of the zero of each run, as in the character database of CPython 3.11
  (Unicode 14.0): \<^verbatim>\<open>0\<close> is 48, the Arabic-Indic zero 1632, the full-width zero 65296.
  The value of a digit is its distance from the zero of its run.
\<close>

definition zero_digits :: "nat list" where
  "zero_digits =
    [48, 1632, 1776, 1984, 2406, 2534, 2662, 2790, 2918, 3046, 3174, 3302, 3430, 3558,
     3664, 3792, 3872, 4160, 4240, 6112, 6160, 6470, 6608, 6784, 6800, 6992, 7088, 7232,
     7248, 42528, 43216, 43264, 43472, 43504, 43600, 44016, 65296, 66720, 68912, 69734,
     69872, 69942, 70096, 70384, 70736, 70864, 71248, 71360, 71472, 71904, 72016, 72784,
     73040, 73120, 92768, 92864, 93008, 120782, 120792, 120802, 120812, 120822, 123200,
     123632, 125264, 130032]"

definition digit_zero :: "nat \<Rightarrow> nat option" where
  "digit_zero c = find (\<lambda>z. z \<le> c \<and> c \<le> z + 9) zero_digits"

definition is_digit :: "nat \<Rightarrow> bool" where
  "is_digit c = (digit_zero c \<noteq> None)"

definition digit_val :: "nat \<Rightarrow> nat" where
  "digit_val c = (case digit_zero c of Some z \<Rightarrow> c - z | None \<Rightarrow> 0)"

text \<open>The white space of \<^verbatim>\<open>\s\<close> and of \<^verbatim>\<open>str.isspace\<close>: the ASCII controls 9 to 13 and
  28 to 31, the blank, U+0085, U+00A0, U+1680, U+2000 to U+200A, U+2028, U+2029, U+202F,
  U+205F and U+3000.\<close>

definition spaces :: "nat list" where
  "spaces =
    [9, 10, 11, 12, 13, 28, 29, 30, 31, 32, 133, 160, 5760, 8192, 8193, 8194, 8195, 8196,
     8197, 8198, 8199, 8200, 8201, 8202, 8232, 8233, 8239, 8287, 12288]"

definition is_space :: "nat \<Rightarrow> bool" where
  "is_space c = (c \<in> set spaces)"

definition cls :: "(nat \<Rightarrow> bool) \<Rightarrow> matcher" where
  "cls P s = (case s of [] \<Rightarrow> [] | c # r \<Rightarrow> if P c then [([c], r)] else [])"

definition lit :: "char \<Rightarrow> matcher" where
  "lit a = cls (\<lambda>c. c = of_char a)"

definition seq :: "matcher \<Rightarrow> matcher \<Rightarrow> matcher" where
  "seq p q s = concat (map (\<lambda>(a, r). map (\<lambda>(b, r'). (a @ b, r')) (q r)) (p s))"

definition alts :: "matcher list \<Rightarrow> matcher" where
  "alts ps s = concat (map (\<lambda>p. p s) ps)"

text \<open>\<open>rep_upto n P\<close> is \<^verbatim>\<open>P{0,n}\<close>, greedy: the longest run first.\<close>

fun rep_upto :: "nat \<Rightarrow> (nat \<Rightarrow> bool) \<Rightarrow> matcher" where
  "rep_upto 0 P s = [([], s)]"
| "rep_upto (Suc n) P [] = [([], [])]"
| "rep_upto (Suc n) P (c # r) =
     (if P c then map (\<lambda>(t, r'). (c # t, r')) (rep_upto n P r) @ [([], c # r)]
      else [([], c # r)])"

text \<open>\<open>rep_plus P\<close> is \<^verbatim>\<open>P+\<close>; a match is never longer than the input.\<close>

definition rep_plus :: "(nat \<Rightarrow> bool) \<Rightarrow> matcher" where
  "rep_plus P s = seq (cls P) (rep_upto (length s) P) s"

text \<open>
  The patterns of the directives, as \<^verbatim>\<open>_strptime.TimeRE\<close> has them:
  \<^verbatim>\<open>%Y\<close> is \<^verbatim>\<open>\d\d\d\d\<close>, \<^verbatim>\<open>%m\<close> is \<^verbatim>\<open>1[0-2]|0[1-9]|[1-9]\<close>,
  \<^verbatim>\<open>%d\<close> is \<^verbatim>\<open>3[0-1]|[1-2]\d|0[1-9]|[1-9]| [1-9]\<close>, \<^verbatim>\<open>%H\<close> is \<^verbatim>\<open>2[0-3]|[0-1]\d|\d\<close>,
  \<^verbatim>\<open>%M\<close> is \<^verbatim>\<open>[0-5]\d|\d\<close>, \<^verbatim>\<open>%S\<close> is \<^verbatim>\<open>6[0-1]|[0-5]\d|\d\<close> and
  \<^verbatim>\<open>%f\<close> is \<^verbatim>\<open>[0-9]{1,6}\<close>.
\<close>

definition re_Y :: matcher where
  "re_Y = seq (cls is_digit) (seq (cls is_digit) (seq (cls is_digit) (cls is_digit)))"

definition re_m :: matcher where
  "re_m = alts
     [seq (lit (CHR ''1'')) (cls (in_range (CHR ''0'') (CHR ''2''))),
      seq (lit (CHR ''0'')) (cls (in_range (CHR ''1'') (CHR ''9''))),
      cls (in_range (CHR ''1'') (CHR ''9''))]"

definition re_d :: matcher where
  "re_d = alts
     [seq (lit (CHR ''3'')) (cls (in_range (CHR ''0'') (CHR ''1''))),
      seq (cls (in_range (CHR ''1'') (CHR ''2''))) (cls is_digit),
      seq (lit (CHR ''0'')) (cls (in_range (CHR ''1'') (CHR ''9''))),
      cls (in_range (CHR ''1'') (CHR ''9'')),
      seq (lit (CHR '' '')) (cls (in_range (CHR ''1'') (CHR ''9'')))]"

definition re_H :: matcher where
  "re_H = alts
     [seq (lit (CHR ''2'')) (cls (in_range (CHR ''0'') (CHR ''3''))),
      seq (cls (in_range (CHR ''0'') (CHR ''1''))) (cls is_digit),
      cls is_digit]"

definition re_M :: matcher where
  "re_M = alts
     [seq (cls (in_range (CHR ''0'') (CHR ''5''))) (cls is_digit),
      cls is_digit]"

definition re_S :: matcher where
  "re_S = alts
     [seq (lit (CHR ''6'')) (cls (in_range (CHR ''0'') (CHR ''1''))),
      seq (cls (in_range (CHR ''0'') (CHR ''5''))) (cls is_digit),
      cls is_digit]"

definition re_f :: matcher where
  "re_f = seq (cls (in_range (CHR ''0'') (CHR ''9'')))
     (rep_upto 5 (in_range (CHR ''0'') (CHR ''9'')))"

text \<open>A field followed by the text that the format puts after it.\<close>

definition followed :: "matcher \<Rightarrow> matcher \<Rightarrow> matcher" where
  "followed p q s = concat (map (\<lambda>(a, r). map (\<lambda>(b, r'). (a, r')) (q r)) (p s))"

text \<open>The groups \<open>(Y, m, d, H, M, S, f)\<close> of every match of the whole pattern, with the
  input left over.\<close>

definition format_regex ::
  "nat list \<Rightarrow>
     ((nat list \<times> nat list \<times> nat list \<times> nat list \<times> nat list \<times> nat list \<times> nat list) \<times>
      nat list) list" where
  "format_regex s =
     [((Y, m, d, H, M, S, f), r7).
        (Y, r1) \<leftarrow> followed re_Y (lit (CHR ''-'')) s,
        (m, r2) \<leftarrow> followed re_m (lit (CHR ''-'')) r1,
        (d, r3) \<leftarrow> followed re_d (rep_plus is_space) r2,
        (H, r4) \<leftarrow> followed re_H (lit (CHR '':'')) r3,
        (M, r5) \<leftarrow> followed re_M (lit (CHR '':'')) r4,
        (S, r6) \<leftarrow> followed re_S (lit (CHR ''.'')) r5,
        (f, r7) \<leftarrow> re_f r6]"

text \<open>\<^verbatim>\<open>int(text)\<close> on a matched group: digits, for the day possibly after a blank, which
  \<^verbatim>\<open>int\<close> strips.\<close>

definition py_int :: "nat list \<Rightarrow> nat" where
  "py_int s = foldl (\<lambda>a c. 10 * a + digit_val c) 0 (dropWhile is_space s)"

definition is_leap :: "nat \<Rightarrow> bool" where
  "is_leap y = (y mod 4 = 0 \<and> (y mod 100 \<noteq> 0 \<or> y mod 400 = 0))"

definition days_in_month :: "nat \<Rightarrow> nat \<Rightarrow> nat" where
  "days_in_month y m =
     (if m = 2 then (if is_leap y then 29 else 28)
      else if m \<in> set [4, 6, 9, 11] then 30 else 31)"

text \<open>What the constructors \<^verbatim>\<open>date(y, m, d)\<close> and \<^verbatim>\<open>datetime(...)\<close> accept.\<close>

definition valid_date :: "nat \<Rightarrow> nat \<Rightarrow> nat \<Rightarrow> bool" where
  "valid_date y m d = (1 \<le> y \<and> y \<le> 9999 \<and> 1 \<le> m \<and> m \<le> 12 \<and> 1 \<le> d \<and> d \<le> days_in_month y m)"

definition valid_datetime :: "datetime \<Rightarrow> bool" where
  "valid_datetime t =
     (valid_date (year t) (month t) (day t) \<and> hour t < 24 \<and> minute t < 60 \<and> second t < 60
      \<and> microsecond t < 1000000)"

text \<open>
  \<^verbatim>\<open>_strptime\<close>: no match, or input left after the match (``unconverted data remains''),
  is a \<^verbatim>\<open>ValueError\<close>; so is a date or time that the constructors refuse. The fraction is
  padded with zeros on the right to six digits.
\<close>

definition strptime :: "nat list \<Rightarrow> exn + datetime" where
  "strptime s =
     (case format_regex s of
        [] \<Rightarrow> Inl ValueError
      | ((Y, m, d, H, M, S, f), rest) # _ \<Rightarrow>
          if rest \<noteq> [] then Inl ValueError
          else
            let t = \<lparr>year = py_int Y, month = py_int m, day = py_int d, hour = py_int H,
                     minute = py_int M, second = py_int S,
                     microsecond = py_int (f @ replicate (6 - length f) (of_char (CHR ''0'')))\<rparr>
            in if valid_datetime t then Inr t else Inl ValueError)"

text \<open>\<^verbatim>\<open>strptime\<close> raises \<^verbatim>\<open>TypeError\<close> on an argument that is not a \<^verbatim>\<open>str\<close>.\<close>

definition datetime_strptime :: "pyval \<Rightarrow> exn + datetime" where
  "datetime_strptime v = (case v of PStr s \<Rightarrow> strptime s | _ \<Rightarrow> Inl TypeError)"

definition safe_timestamp :: "pyval \<Rightarrow> pyval" where
  "safe_timestamp v =
     (if v \<in> set [PNone, PStr (str ''''), PStr (str ''null''), PStr (str ''NULL''),
                   PStr (str ''NA'')] then PNone
      else
        (case datetime_strptime v of
           Inr t \<Rightarrow> PDatetime t
         | Inl e \<Rightarrow> PNone))"

section \<open>The fetcher\<close>

text \<open>
  The outbound call is the environment's: \<open>post\<close> answers a request with an exception
  (transport failure, timeout) or with a response, given by its status code and by its body
  as \<^verbatim>\<open>res.json()\<close> reads it (\<open>None\<close> when the body is not JSON).
\<close>

record http_request =
  req_url :: string
  req_json :: "(string \<times> pyval) list"
  req_headers :: "(string \<times> string) list"
  req_timeout :: nat

datatype http_result = Raises exn | Response nat "pyval option"

definition API_URL :: string where
  "API_URL = ''https://analytics.ursaaenergy.com/api/service/getlastknownlocation''"

definition raise_for_status :: "nat \<Rightarrow> exn option" where
  "raise_for_status code = (if 400 \<le> code \<and> code < 600 then Some (HTTPError code) else None)"

text \<open>\<^verbatim>\<open>obj.get(key, default)\<close>: only a \<^verbatim>\<open>dict\<close> has the method.\<close>

definition py_get :: "pyval \<Rightarrow> string \<Rightarrow> pyval \<Rightarrow> exn + pyval" where
  "py_get obj k dflt =
     (case obj of
        PDict kv \<Rightarrow> Inr (case map_of kv k of Some v \<Rightarrow> v | None \<Rightarrow> dflt)
      | _ \<Rightarrow> Inl AttributeError)"

text \<open>The request that \<^verbatim>\<open>requests.post\<close> sends: the fixed URL, the JSON payload, the
  header and the timeout of 30 seconds.\<close>

definition api_request :: "pyval \<Rightarrow> http_request" where
  "api_request API_SECRET =
     \<lparr>req_url = API_URL,
      req_json = [(''secretkey'', API_SECRET), (''imeino'', PStr (str ''all'')),
                  (''pageindex'', PStr (str ''1''))],
      req_headers = [(''Content-Type'', ''application/json'')],
      req_timeout = 30\<rparr>"

definition fetch_api_data :: "pyval \<Rightarrow> (http_request \<Rightarrow> http_result) \<Rightarrow> exn + pyval" where
  "fetch_api_data API_SECRET post =
     (case post (api_request API_SECRET) of
        Raises e \<Rightarrow> Inl e
      | Response code body \<Rightarrow>
          (case raise_for_status code of
             Some e \<Rightarrow> Inl e
           | None \<Rightarrow>
               (case body of
                  None \<Rightarrow> Inl JSONDecodeError
                | Some j \<Rightarrow> py_get j ''data'' (PList []))))"

section \<open>Insert\<close>

text \<open>The placeholders \<^verbatim>\<open>%(name)s\<close> of the statement, in the order of its VALUES list.\<close>

definition placeholders :: "string list" where
  "placeholders =
     [''imei'', ''assetname'', ''gpsiat'', ''latitude'', ''longitude'', ''direction'', ''speed'',
      ''disttravelled_all'', ''disttravelled_today'', ''bmsiat'', ''cc'', ''voltage'', ''current'',
      ''soc'',
      ''maxvoltagecellvalue'', ''maxvltagecellnumber'',
      ''minvoltagecellvalue'', ''minvoltagecellnumber'',
      ''ChargeDischargeStatus'', ''ChargingCurrent'', ''dischargingcurrent'', ''DeviceStatus'',
      ''serial'', ''barcode'',
      ''cellVolt1'', ''cellVolt2'', ''cellVolt3'', ''cellVolt4'', ''cellVolt5'', ''cellVolt6'',
      ''cellVolt7'', ''cellVolt8'', ''cellVolt9'', ''cellVolt10'', ''cellVolt11'', ''cellVolt12'',
      ''cellVolt13'', ''cellVolt14'', ''cellVolt15'', ''cellVolt16'',
      ''cellTemp1'', ''cellTemp2'', ''cellTemp3'', ''cellTemp4'', ''cellTemp5'', ''cellTemp6'',
      ''cellTemp7'', ''cellTemp8'', ''cellTemp9'', ''cellTemp10'', ''cellTemp11'', ''cellTemp12'',
      ''cellTemp13'', ''cellTemp14'', ''cellTemp15'', ''cellTemp16'',
      ''charging'', ''avgrangekm'', ''maxrangekm'', ''minrangekm'',
      ''created_at'']"

text \<open>
  What the store connection does during one call of \<^verbatim>\<open>upsert_device\<close> is the
  environment's choice: whether \<^verbatim>\<open>conn.cursor()\<close>, the adaptation of a value to SQL,
  the statement itself, \<^verbatim>\<open>conn.commit()\<close> and \<^verbatim>\<open>conn.rollback()\<close> raise, and what the
  clock reads at the two calls of \<^verbatim>\<open>datetime.now()\<close>. Closing a cursor or a connection
  does not raise.
\<close>

record db_calls =
  cursor_raises :: "exn option"
  adapt_raises :: "pyval \<Rightarrow> exn option"
  execute_raises :: "pyval list \<Rightarrow> exn option"
  commit_raises :: "exn option"
  rollback_raises :: "exn option"
  now_created :: datetime
  now_logged :: datetime

datatype log_line =
    Started
  | Inserted pyval datetime
  | DbError exn
  | MainLoopError exn

datatype event =
    Executed "(string \<times> pyval) list"
  | Committed
  | RolledBack
  | Printed log_line
  | Slept nat

text \<open>The world outside the process: the committed rows of \<^verbatim>\<open>device_data\<close>, the
  connections and cursors that are open, and what the process did, in order.\<close>

record world =
  rows :: "pyval list list"
  open_conns :: nat
  open_cursors :: nat
  trace :: "event list"

definition emit :: "event \<Rightarrow> world \<Rightarrow> world" where
  "emit e w = w\<lparr>trace := trace w @ [e]\<rparr>"

text \<open>\<^verbatim>\<open>device.items()\<close> and \<^verbatim>\<open>device.get(key)\<close>.\<close>

definition py_items :: "pyval \<Rightarrow> exn + (string \<times> pyval) list" where
  "py_items obj = (case obj of PDict kv \<Rightarrow> Inr kv | _ \<Rightarrow> Inl AttributeError)"

definition dict_get :: "(string \<times> pyval) list \<Rightarrow> string \<Rightarrow> pyval" where
  "dict_get kv k = (case map_of kv k of Some v \<Rightarrow> v | None \<Rightarrow> PNone)"

text \<open>The mapping \<^verbatim>\<open>data\<close> after the comprehension over the items and the two
  assignments of the timestamps.\<close>

definition sanitize_fields :: "(string \<times> pyval) list \<Rightarrow> (string \<times> pyval) list" where
  "sanitize_fields device =
     (let data = map (\<lambda>(k, v). (k, safe v (PInt 0))) device;
          data = AList.update ''gpsiat'' (safe_timestamp (dict_get device ''gpsiat'')) data
      in AList.update ''bmsiat'' (safe_timestamp (dict_get device ''bmsiat'')) data)"

text \<open>The mapping \<^verbatim>\<open>data\<close> as the statement receives it: \<^verbatim>\<open>created_at\<close> is assigned
  last.\<close>

definition build_data :: "datetime \<Rightarrow> (string \<times> pyval) list \<Rightarrow> (string \<times> pyval) list" where
  "build_data now device = AList.update ''created_at'' (PDatetime now) (sanitize_fields device)"

text \<open>The driver fills the placeholders in one pass: a name that \<^verbatim>\<open>data\<close> lacks is a
  \<^verbatim>\<open>KeyError\<close>, a value that it cannot adapt raises what the adaptation raises.\<close>

fun bind_params :: "(pyval \<Rightarrow> exn option) \<Rightarrow> string list \<Rightarrow> (string \<times> pyval) list \<Rightarrow> exn + pyval list" where
  "bind_params adapt [] data = Inr []"
| "bind_params adapt (name # names) data =
     (case map_of data name of
        None \<Rightarrow> Inl (KeyError name)
      | Some v \<Rightarrow>
          (case adapt v of
             Some e \<Rightarrow> Inl e
           | None \<Rightarrow>
               (case bind_params adapt names data of
                  Inl e \<Rightarrow> Inl e
                | Inr vs \<Rightarrow> Inr (v # vs))))"

text \<open>The body of the \<^verbatim>\<open>try\<close>: the exception that leaves it, if any, and the world as
  it is by then.\<close>

definition try_insert :: "db_calls \<Rightarrow> pyval \<Rightarrow> world \<Rightarrow> exn option \<times> world" where
  "try_insert c device w =
     (case py_items device of
        Inl e \<Rightarrow> (Some e, w)
      | Inr items \<Rightarrow>
          let data = build_data (now_created c) items;
              w1 = emit (Executed data) w
          in case bind_params (adapt_raises c) placeholders data of
               Inl e \<Rightarrow> (Some e, w1)
             | Inr row \<Rightarrow>
                 (case execute_raises c row of
                    Some e \<Rightarrow> (Some e, w1)
                  | None \<Rightarrow>
                      (case commit_raises c of
                         Some e \<Rightarrow> (Some e, w1)
                       | None \<Rightarrow>
                           (None,
                            emit (Printed (Inserted (dict_get items ''imei'') (now_logged c)))
                              (emit Committed (w1\<lparr>rows := rows w1 @ [row]\<rparr>))))))"

definition cursor_close :: "world \<Rightarrow> world" where
  "cursor_close w = w\<lparr>open_cursors := open_cursors w - 1\<rparr>"

text \<open>\<^verbatim>\<open>upsert_device\<close>: the cursor is opened before the \<^verbatim>\<open>try\<close>; the handler rolls
  back and logs; \<^verbatim>\<open>finally\<close> closes the cursor on every path out of the \<^verbatim>\<open>try\<close>.\<close>

definition upsert_device :: "db_calls \<Rightarrow> pyval \<Rightarrow> world \<Rightarrow> exn option \<times> world" where
  "upsert_device c device w =
     (case cursor_raises c of
        Some e \<Rightarrow> (Some e, w)
      | None \<Rightarrow>
          (case try_insert c device (w\<lparr>open_cursors := open_cursors w + 1\<rparr>) of
             (None, w1) \<Rightarrow> (None, cursor_close w1)
           | (Some e, w1) \<Rightarrow>
               (case rollback_raises c of
                  Some e' \<Rightarrow> (Some e', cursor_close w1)
                | None \<Rightarrow>
                    (None, cursor_close (emit (Printed (DbError e)) (emit RolledBack w1))))))"

section \<open>Main loop\<close>

text \<open>\<^verbatim>\<open>for device in devices\<close>: a list yields its elements, a string its characters,
  a dict its keys; nothing else that JSON holds is iterable.\<close>

definition py_iter :: "pyval \<Rightarrow> exn + pyval list" where
  "py_iter v =
     (case v of
        PList xs \<Rightarrow> Inr xs
      | PStr s \<Rightarrow> Inr (map (\<lambda>c. PStr [c]) s)
      | PDict kv \<Rightarrow> Inr (map (\<lambda>(k, v). PStr (str k)) kv)
      | _ \<Rightarrow> Inl TypeError)"

text \<open>The loop over the devices; \<open>db i\<close> is what the connection does during the \<open>i\<close>-th
  call. An exception that leaves \<^verbatim>\<open>upsert_device\<close> leaves the loop.\<close>

fun for_devices :: "(nat \<Rightarrow> db_calls) \<Rightarrow> nat \<Rightarrow> pyval list \<Rightarrow> world \<Rightarrow> exn option \<times> world" where
  "for_devices db i [] w = (None, w)"
| "for_devices db i (device # devices) w =
     (case upsert_device (db i) device w of
        (Some e, w') \<Rightarrow> (Some e, w')
      | (None, w') \<Rightarrow> for_devices db (Suc i) devices w')"

record tick_env =
  api_secret :: pyval
  connect_raises :: "exn option"
  post :: "http_request \<Rightarrow> http_result"
  db :: "nat \<Rightarrow> db_calls"

text \<open>The body of the \<^verbatim>\<open>try\<close> of one iteration of \<^verbatim>\<open>while True\<close>.\<close>

definition tick_body :: "tick_env \<Rightarrow> world \<Rightarrow> exn option \<times> world" where
  "tick_body env w =
     (case connect_raises env of
        Some e \<Rightarrow> (Some e, w)
      | None \<Rightarrow>
          let w1 = w\<lparr>open_conns := open_conns w + 1\<rparr>
          in case fetch_api_data (api_secret env) (post env) of
               Inl e \<Rightarrow> (Some e, w1)
             | Inr devices \<Rightarrow>
                 (case py_iter devices of
                    Inl e \<Rightarrow> (Some e, w1)
                  | Inr ds \<Rightarrow>
                      (case for_devices (db env) 0 ds w1 of
                         (Some e, w2) \<Rightarrow> (Some e, w2)
                       | (None, w2) \<Rightarrow> (None, w2\<lparr>open_conns := open_conns w2 - 1\<rparr>))))"

text \<open>One iteration: the \<^verbatim>\<open>try\<close>, its handler, and the sleep after both.\<close>

definition tick :: "tick_env \<Rightarrow> world \<Rightarrow> world" where
  "tick env w =
     (case tick_body env w of
        (None, w') \<Rightarrow> emit (Slept 10) w'
      | (Some e, w') \<Rightarrow> emit (Slept 10) (emit (Printed (MainLoopError e)) w'))"



section \<open>Health endpoint\<close>

definition health :: pyval where
  "health = PDict [(''status'', PStr (str ''ok'')), (''service'', PStr (str ''vizvolt-ingestion''))]"

text \<open>The route \<^verbatim>\<open>@app.get("/")\<close>: the framework answers a request with status 200 and
  the handler's return value as JSON. The handler takes no argument; the request and the
  state of the poll loop are parameters here only to say that the answer ignores them.\<close>

definition get_root :: "'request \<Rightarrow> world \<Rightarrow> nat \<times> pyval" where
  "get_root request w = (200, health)"

section \<open>Notions of the specification\<close>

text \<open>The sentinel forms of a missing value: \<^verbatim>\<open>None\<close>, \<^verbatim>\<open>""\<close>, \<^verbatim>\<open>"null"\<close>,
  \<^verbatim>\<open>"NULL"\<close> and \<^verbatim>\<open>"NA"\<close>.\<close>

definition sentinel :: "pyval \<Rightarrow> bool" where
  "sentinel v =
     (v = PNone \<or> v = PStr (str '''') \<or> v = PStr (str ''null'') \<or> v = PStr (str ''NULL'') \<or>
      v = PStr (str ''NA''))"

text \<open>
  The fixed textual format \<^verbatim>\<open>YYYY-MM-DD HH:MM:SS.ffffff\<close>: a string matches it when it
  has one of the digits \<^verbatim>\<open>0\<close> to \<^verbatim>\<open>9\<close> wherever the template has a letter and the
  template's character everywhere else. The instant that such a string denotes is read off
  its fields by position, each field in decimal notation.
\<close>

definition fixed_template :: string where
  "fixed_template = ''YYYY-MM-DD HH:MM:SS.ffffff''"

definition fixed_format :: "nat list \<Rightarrow> bool" where
  "fixed_format s =
     list_all2 (\<lambda>t c. if t \<in> set ''YMDHSf'' then in_range (CHR ''0'') (CHR ''9'') c
                       else c = of_char t) fixed_template s"

fun decimal :: "nat list \<Rightarrow> nat" where
  "decimal [] = 0"
| "decimal (c # cs) = digit_val c * 10 ^ length cs + decimal cs"

definition fixed_instant :: "nat list \<Rightarrow> datetime" where
  "fixed_instant s =
     \<lparr>year = decimal (take 4 s), month = decimal (take 2 (drop 5 s)),
      day = decimal (take 2 (drop 8 s)), hour = decimal (take 2 (drop 11 s)),
      minute = decimal (take 2 (drop 14 s)), second = decimal (take 2 (drop 17 s)),
      microsecond = decimal (drop 20 s)\<rparr>"

text \<open>
  The strings that \<^verbatim>\<open>strptime\<close> accepts for \<^verbatim>\<open>%Y-%m-%d %H:%M:%S.%f\<close>, field by field.
  A text is a \<open>single\<close> character of a kind, or a \<open>pair\<close> of characters of two kinds; a
  kind is one character, a range of ASCII digits, or any decimal digit of Unicode.
  The year is four decimal digits. The month is \<^verbatim>\<open>1\<close> to \<^verbatim>\<open>9\<close>, \<^verbatim>\<open>01\<close> to \<^verbatim>\<open>09\<close>
  or \<^verbatim>\<open>10\<close> to \<^verbatim>\<open>12\<close>. The day is \<^verbatim>\<open>1\<close> to \<^verbatim>\<open>9\<close>, also after a zero or a blank,
  \<^verbatim>\<open>30\<close>, \<^verbatim>\<open>31\<close>, or \<^verbatim>\<open>1\<close> or \<^verbatim>\<open>2\<close> and any decimal digit. The hour is any decimal
  digit, \<^verbatim>\<open>0\<close> or \<^verbatim>\<open>1\<close> and any decimal digit, or \<^verbatim>\<open>20\<close> to \<^verbatim>\<open>23\<close>. The minute is any
  decimal digit, alone or after one of \<^verbatim>\<open>0\<close> to \<^verbatim>\<open>5\<close>; so is the second, which may
  also be \<^verbatim>\<open>60\<close> or \<^verbatim>\<open>61\<close>. The fraction is one to six of the digits \<^verbatim>\<open>0\<close> to \<^verbatim>\<open>9\<close>
  and counts from the left. Date and time are separated by any run of white space.
  \<open>accepted_form s t\<close> says that \<open>s\<close> is such a string and that \<open>t\<close> holds the numbers its
  fields denote.
\<close>

definition single :: "(nat \<Rightarrow> bool) \<Rightarrow> nat list \<Rightarrow> bool" where
  "single P a = (\<exists>x. a = [x] \<and> P x)"

definition pair :: "(nat \<Rightarrow> bool) \<Rightarrow> (nat \<Rightarrow> bool) \<Rightarrow> nat list \<Rightarrow> bool" where
  "pair P Q a = (\<exists>x y. a = [x, y] \<and> P x \<and> Q y)"

definition is_char :: "char \<Rightarrow> nat \<Rightarrow> bool" where
  "is_char a c = (c = of_char a)"

definition year_text :: "nat list \<Rightarrow> bool" where
  "year_text a = (length a = 4 \<and> list_all is_digit a)"

definition month_text :: "nat list \<Rightarrow> bool" where
  "month_text a =
     (pair (is_char (CHR ''1'')) (in_range (CHR ''0'') (CHR ''2'')) a \<or>
      pair (is_char (CHR ''0'')) (in_range (CHR ''1'') (CHR ''9'')) a \<or>
      single (in_range (CHR ''1'') (CHR ''9'')) a)"

definition day_text :: "nat list \<Rightarrow> bool" where
  "day_text a =
     (pair (is_char (CHR ''3'')) (in_range (CHR ''0'') (CHR ''1'')) a \<or>
      pair (in_range (CHR ''1'') (CHR ''2'')) is_digit a \<or>
      pair (is_char (CHR ''0'')) (in_range (CHR ''1'') (CHR ''9'')) a \<or>
      single (in_range (CHR ''1'') (CHR ''9'')) a \<or>
      pair (is_char (CHR '' '')) (in_range (CHR ''1'') (CHR ''9'')) a)"

definition hour_text :: "nat list \<Rightarrow> bool" where
  "hour_text a =
     (pair (is_char (CHR ''2'')) (in_range (CHR ''0'') (CHR ''3'')) a \<or>
      pair (in_range (CHR ''0'') (CHR ''1'')) is_digit a \<or>
      single is_digit a)"

definition minute_text :: "nat list \<Rightarrow> bool" where
  "minute_text a = (pair (in_range (CHR ''0'') (CHR ''5'')) is_digit a \<or> single is_digit a)"

definition second_text :: "nat list \<Rightarrow> bool" where
  "second_text a =
     (pair (is_char (CHR ''6'')) (in_range (CHR ''0'') (CHR ''1'')) a \<or>
      pair (in_range (CHR ''0'') (CHR ''5'')) is_digit a \<or>
      single is_digit a)"

definition fraction_text :: "nat list \<Rightarrow> bool" where
  "fraction_text a =
     (1 \<le> length a \<and> length a \<le> 6 \<and> list_all (in_range (CHR ''0'') (CHR ''9'')) a)"

definition accepted_form :: "nat list \<Rightarrow> datetime \<Rightarrow> bool" where
  "accepted_form s t =
     (\<exists>Y m d ws H M S f.
        s = Y @ str ''-'' @ m @ str ''-'' @ d @ ws @ H @ str '':'' @ M @ str '':'' @ S @
            str ''.'' @ f \<and>
        year_text Y \<and> month_text m \<and> day_text d \<and> ws \<noteq> [] \<and> list_all is_space ws \<and>
        hour_text H \<and> minute_text M \<and> second_text S \<and> fraction_text f \<and>
        t = \<lparr>year = decimal Y, month = decimal m, day = decimal (filter is_digit d),
             hour = decimal H, minute = decimal M, second = decimal S,
             microsecond = decimal f * 10 ^ (6 - length f)\<rparr>)"

text \<open>A run of white space before a digit: the longest match comes first, and every other
  match leaves white space behind.\<close>

definition spacey :: "('a \<times> nat list) list \<Rightarrow> bool" where
  "spacey rs = list_all (\<lambda>(a, r). r \<noteq> [] \<and> is_space (hd r)) rs"

text \<open>The number that two digits denote.\<close>

definition two :: "nat \<Rightarrow> nat \<Rightarrow> nat" where
  "two a b = 10 * digit_val a + digit_val b"

text \<open>
  What one call of \<^verbatim>\<open>upsert_device\<close> on a record is expected to do when the cursor can be
  opened and the rollback goes through. The insert fails when a placeholder cannot be
  filled, when the statement raises or when the commit raises. An attempt is the call of
  \<^verbatim>\<open>cursor.execute\<close>, followed by the commit and the log line of a success, or by the
  rollback and the log line of a failure.
\<close>

definition insert_error :: "db_calls \<Rightarrow> (string \<times> pyval) list \<Rightarrow> exn option" where
  "insert_error c items =
     (case bind_params (adapt_raises c) placeholders (build_data (now_created c) items) of
        Inl e \<Rightarrow> Some e
      | Inr row \<Rightarrow>
          (case execute_raises c row of
             Some e \<Rightarrow> Some e
           | None \<Rightarrow> commit_raises c))"

definition attempt_events :: "db_calls \<Rightarrow> (string \<times> pyval) list \<Rightarrow> event list" where
  "attempt_events c items =
     Executed (build_data (now_created c) items) #
     (case insert_error c items of
        None \<Rightarrow> [Committed, Printed (Inserted (dict_get items ''imei'') (now_logged c))]
      | Some e \<Rightarrow> [RolledBack, Printed (DbError e)])"

text \<open>Observations on a trace: the statements that were executed, and the sleeps.\<close>

fun executed :: "event list \<Rightarrow> (string \<times> pyval) list list" where
  "executed [] = []"
| "executed (Executed data # t) = data # executed t"
| "executed (e # t) = executed t"


section \<open>Sample environments\<close>

text \<open>Concrete inputs for the examples below: a clock reading, an empty world, a record that
  has every source field, the record of the specification's end-to-end scenario, and
  connections that behave in three ways.\<close>

definition clock0 :: datetime where
  "clock0 = \<lparr>year = 2024, month = 1, day = 1, hour = 10, minute = 0, second = 0,
     microsecond = 0\<rparr>"

definition world0 :: world where
  "world0 = \<lparr>rows = [], open_conns = 0, open_cursors = 0, trace = []\<rparr>"

definition never :: "'a \<Rightarrow> exn option" where
  "never x = None"

definition always :: "exn \<Rightarrow> 'a \<Rightarrow> exn option" where
  "always e x = Some e"

definition field_one :: "string \<Rightarrow> string \<times> pyval" where
  "field_one name = (name, PInt 1)"

definition full_record :: "(string \<times> pyval) list" where
  "full_record = map field_one (butlast placeholders)"

definition scenario_record :: "(string \<times> pyval) list" where
  "scenario_record =
     [(''imei'', PStr (str ''123'')), (''gpsiat'', PStr (str ''2024-01-01 10:00:00.000000'')),
      (''latitude'', PStr (str ''12.34'')), (''voltage'', PNone)]"

text \<open>Nothing raises.\<close>

definition db_ok :: db_calls where
  "db_ok = \<lparr>cursor_raises = None, adapt_raises = never, execute_raises = never,
     commit_raises = None, rollback_raises = None, now_created = clock0, now_logged = clock0\<rparr>"

text \<open>The server refuses the statement; the connection stays usable.\<close>

definition db_refuses :: db_calls where
  "db_refuses = db_ok\<lparr>execute_raises := always DatabaseError\<rparr>"

text \<open>The server closes the connection while the statement runs: \<^verbatim>\<open>execute\<close> raises
  \<^verbatim>\<open>OperationalError\<close>, and \<^verbatim>\<open>rollback\<close> on the closed connection raises
  \<^verbatim>\<open>InterfaceError\<close>.\<close>

definition db_lost :: db_calls where
  "db_lost = db_ok\<lparr>execute_raises := always OperationalError,
     rollback_raises := Some InterfaceError\<rparr>"

definition db_all_ok :: "nat \<Rightarrow> db_calls" where
  "db_all_ok i = db_ok"

definition db_all_lost :: "nat \<Rightarrow> db_calls" where
  "db_all_lost i = db_lost"

definition db_first_refused :: "nat \<Rightarrow> db_calls" where
  "db_first_refused i = (if i = 0 then db_refuses else db_ok)"

definition post_gives :: "http_result \<Rightarrow> http_request \<Rightarrow> http_result" where
  "post_gives r request = r"

section \<open>The sanitizer\<close>

lemma safe_sentinel: "sentinel v \<Longrightarrow> safe v dflt = dflt"
  by (auto simp: safe_def sentinel_def)

lemma safe_timestamp_sentinel: "sentinel v \<Longrightarrow> safe_timestamp v = PNone"
  by (auto simp: safe_timestamp_def sentinel_def)

lemma map_of_comprehension:
  "map_of (map (\<lambda>(k, v). (k, f v)) kv) k = map_option f (map_of kv k)"
  by (induction kv) auto

text \<open>What \<^verbatim>\<open>data\<close> holds under each key, before \<^verbatim>\<open>created_at\<close> is assigned and when
  the statement is executed.\<close>

lemma map_of_sanitize_fields:
  "map_of (sanitize_fields device) k =
     (if k = ''bmsiat'' then Some (safe_timestamp (dict_get device ''bmsiat''))
      else if k = ''gpsiat'' then Some (safe_timestamp (dict_get device ''gpsiat''))
      else map_option (\<lambda>v. safe v (PInt 0)) (map_of device k))"
  by (simp add: sanitize_fields_def Let_def update_conv' map_of_comprehension)

lemma map_of_build_data:
  "map_of (build_data now device) k =
     (if k = ''created_at'' then Some (PDatetime now)
      else if k = ''bmsiat'' then Some (safe_timestamp (dict_get device ''bmsiat''))
      else if k = ''gpsiat'' then Some (safe_timestamp (dict_get device ''gpsiat''))
      else map_option (\<lambda>v. safe v (PInt 0)) (map_of device k))"
  by (simp add: build_data_def update_conv' map_of_sanitize_fields)

text \<open>
  Claim C1, as amended. A field of the raw record whose value is a sentinel form is stored
  as \<^verbatim>\<open>None\<close> when it is \<^verbatim>\<open>gpsiat\<close> or \<^verbatim>\<open>bmsiat\<close>, and as the number 0 when it is
  any other field except \<^verbatim>\<open>created_at\<close>; a source field named \<^verbatim>\<open>created_at\<close> is
  overwritten by the ingestion time, whatever its value. Up to the assignment of
  \<^verbatim>\<open>created_at\<close>, every sentinel is 0 or, in the two timestamp fields, \<^verbatim>\<open>None\<close>.
\<close>

theorem sentinel_fields_normalized:
  assumes "map_of device k = Some v" and "sentinel v"
  shows "(k \<in> {''gpsiat'', ''bmsiat''} \<longrightarrow>
            map_of (sanitize_fields device) k = Some PNone \<and>
            map_of (build_data now device) k = Some PNone) \<and>
         (k \<notin> {''gpsiat'', ''bmsiat''} \<longrightarrow> map_of (sanitize_fields device) k = Some (PInt 0)) \<and>
         (k \<notin> {''gpsiat'', ''bmsiat'', ''created_at''} \<longrightarrow>
            map_of (build_data now device) k = Some (PInt 0)) \<and>
         (k = ''created_at'' \<longrightarrow> map_of (build_data now device) k = Some (PDatetime now))"
  using assms
  by (auto simp: map_of_build_data map_of_sanitize_fields dict_get_def safe_sentinel
      safe_timestamp_sentinel)

theorem sentinel_fields_normalized_witness:
  "map_of (build_data \<lparr>year = 2024, month = 1, day = 1, hour = 10, minute = 0, second = 0,
       microsecond = 0\<rparr> [(''voltage'', PNone), (''gpsiat'', PStr (str ''NA''))]) ''voltage''
     = Some (PInt 0) \<and>
   map_of (build_data \<lparr>year = 2024, month = 1, day = 1, hour = 10, minute = 0, second = 0,
       microsecond = 0\<rparr> [(''voltage'', PNone), (''gpsiat'', PStr (str ''NA''))]) ''gpsiat''
     = Some PNone"
  using sentinel_fields_normalized [of "[(''voltage'', PNone), (''gpsiat'', PStr (str ''NA''))]"
      "''voltage''" PNone]
    sentinel_fields_normalized [of "[(''voltage'', PNone), (''gpsiat'', PStr (str ''NA''))]"
      "''gpsiat''" "PStr (str ''NA'')"]
  by (simp add: sentinel_def)

text \<open>
  Claim C1 as stated fails on a record that carries a field \<^verbatim>\<open>created_at\<close>: the value
  \<^verbatim>\<open>None\<close> is a sentinel form, the field is neither \<^verbatim>\<open>gpsiat\<close> nor \<^verbatim>\<open>bmsiat\<close>, and
  the statement receives the ingestion time for it, not 0.
\<close>

theorem sentinel_created_at_counterexample:
  "map_of [(''created_at'', PNone)] ''created_at'' = Some PNone \<and> sentinel PNone \<and>
   ''created_at'' \<notin> {''gpsiat'', ''bmsiat''} \<and>
   map_of (build_data \<lparr>year = 2024, month = 1, day = 1, hour = 10, minute = 0, second = 0,
       microsecond = 0\<rparr> [(''created_at'', PNone)]) ''created_at''
     = Some (PDatetime \<lparr>year = 2024, month = 1, day = 1, hour = 10, minute = 0, second = 0,
          microsecond = 0\<rparr>) \<and>
   map_of (build_data \<lparr>year = 2024, month = 1, day = 1, hour = 10, minute = 0, second = 0,
       microsecond = 0\<rparr> [(''created_at'', PNone)]) ''created_at'' \<noteq> Some (PInt 0)"
  by (simp add: map_of_build_data sentinel_def)

lemma safe_non_sentinel: "\<not> sentinel v \<Longrightarrow> safe v dflt = v"
  by (auto simp: safe_def sentinel_def)

text \<open>
  Claim C7, as amended. A field of the raw record whose value is not a sentinel form, and
  that is neither \<^verbatim>\<open>gpsiat\<close> nor \<^verbatim>\<open>bmsiat\<close> nor \<^verbatim>\<open>created_at\<close>, reaches the
  statement unchanged: \<^verbatim>\<open>safe\<close> is the identity on the value, whatever the default, and
  the record that is bound holds that very value under the field's name (a string stays a
  string, a number the same number). Up to the assignment of \<^verbatim>\<open>created_at\<close> this holds
  of a field of that name too; the assignment then replaces its value by the ingestion
  time.
\<close>

theorem non_sentinel_fields_unchanged:
  assumes "map_of device k = Some v" and "\<not> sentinel v"
  shows "safe v dflt = v \<and>
         (k \<notin> {''gpsiat'', ''bmsiat''} \<longrightarrow> map_of (sanitize_fields device) k = Some v) \<and>
         (k \<notin> {''gpsiat'', ''bmsiat'', ''created_at''} \<longrightarrow>
            map_of (build_data now device) k = Some v) \<and>
         (k = ''created_at'' \<longrightarrow> map_of (build_data now device) k = Some (PDatetime now))"
  using assms
  by (auto simp: map_of_build_data map_of_sanitize_fields safe_non_sentinel)

theorem non_sentinel_fields_unchanged_witness:
  "\<not> sentinel (PStr (str ''12.34'')) \<and>
   safe (PStr (str ''12.34'')) (PInt 0) = PStr (str ''12.34'') \<and>
   map_of (sanitize_fields [(''latitude'', PStr (str ''12.34'')), (''speed'', PInt 40)])
     ''latitude'' = Some (PStr (str ''12.34'')) \<and>
   map_of (build_data clock0 [(''latitude'', PStr (str ''12.34'')), (''speed'', PInt 40)])
     ''latitude'' = Some (PStr (str ''12.34'')) \<and>
   map_of (build_data clock0 [(''latitude'', PStr (str ''12.34'')), (''speed'', PInt 40)])
     ''speed'' = Some (PInt 40)"
  using non_sentinel_fields_unchanged
      [of "[(''latitude'', PStr (str ''12.34'')), (''speed'', PInt 40)]" "''latitude''"
        "PStr (str ''12.34'')" "PInt 0" clock0]
    non_sentinel_fields_unchanged
      [of "[(''latitude'', PStr (str ''12.34'')), (''speed'', PInt 40)]" "''speed''"
        "PInt 40" "PInt 0" clock0]
  by (simp add: sentinel_def)

text \<open>
  Claim C7 as stated fails on a record that carries a field \<^verbatim>\<open>created_at\<close>: the value
  \<^verbatim>\<open>"2020-05-05"\<close> is not a sentinel form, the field is neither \<^verbatim>\<open>gpsiat\<close> nor
  \<^verbatim>\<open>bmsiat\<close>, and the statement receives the ingestion time for it, not the value.
\<close>

theorem non_sentinel_created_at_counterexample:
  "map_of [(''created_at'', PStr (str ''2020-05-05''))] ''created_at'' =
     Some (PStr (str ''2020-05-05'')) \<and>
   \<not> sentinel (PStr (str ''2020-05-05'')) \<and>
   ''created_at'' \<notin> {''gpsiat'', ''bmsiat''} \<and>
   map_of (build_data clock0 [(''created_at'', PStr (str ''2020-05-05''))]) ''created_at'' =
     Some (PDatetime clock0) \<and>
   map_of (build_data clock0 [(''created_at'', PStr (str ''2020-05-05''))]) ''created_at'' \<noteq>
     Some (PStr (str ''2020-05-05''))"
  by (simp add: map_of_build_data sentinel_def)

section \<open>Timestamps\<close>

subsection \<open>Digits and white space\<close>

lemma digit_zero_ascii: "48 \<le> c \<Longrightarrow> c \<le> 57 \<Longrightarrow> digit_zero c = Some 48"
  by (simp add: digit_zero_def zero_digits_def)

lemma is_digit_ascii: "48 \<le> c \<Longrightarrow> c \<le> 57 \<Longrightarrow> is_digit c"
  by (simp add: is_digit_def digit_zero_ascii)

lemma digit_val_ascii: "48 \<le> c \<Longrightarrow> c \<le> 57 \<Longrightarrow> digit_val c = c - 48"
  by (simp add: digit_val_def digit_zero_ascii)

lemma digit_bounds: "is_digit c \<Longrightarrow> 48 \<le> c \<and> (c \<le> 57 \<or> 1632 \<le> c)"
  unfolding is_digit_def digit_zero_def find_None_iff zero_digits_def
  by auto

lemma space_not_digit: "\<forall>c \<in> set spaces. \<not> is_digit c"
  by (simp add: spaces_def is_digit_def digit_zero_def zero_digits_def)

lemma digit_not_space: "is_digit c \<Longrightarrow> \<not> is_space c"
  using space_not_digit by (auto simp: is_space_def)

lemma digit_val_le: "digit_val c \<le> 9"
  by (auto simp: digit_val_def digit_zero_def find_Some_iff split: option.splits)

lemma is_space_blank: "is_space 32"
  by (simp add: is_space_def spaces_def)

subsection \<open>Strings in the fixed format\<close>

lemmas stage_defs = followed_def alts_def seq_def cls_def lit_def in_range_def two_def

lemma stage_Y:
  assumes "is_digit a" "is_digit b" "is_digit c" "is_digit d"
  shows "followed re_Y (lit (CHR ''-'')) (a # b # c # d # 45 # r) =
           [([a, b, c, d], r)]"
  using assms by (simp add: re_Y_def stage_defs)

lemma stage_m:
  assumes "in_range (CHR ''0'') (CHR ''9'') a" "in_range (CHR ''0'') (CHR ''9'') b"
  shows "followed re_m (lit (CHR ''-'')) (a # b # 45 # r) =
           (if 1 \<le> two a b \<and> two a b \<le> 12 then [([a, b], r)] else [])"
  using assms
  by (auto simp: re_m_def stage_defs digit_val_ascii)

lemma rep_plus_one_space:
  "\<not> is_space c \<Longrightarrow> rep_plus is_space (32 # c # r) = [([32], c # r)]"
  by (simp add: rep_plus_def seq_def cls_def is_space_blank)

lemma stage_d:
  assumes "in_range (CHR ''0'') (CHR ''9'') a" "in_range (CHR ''0'') (CHR ''9'') b" "is_digit c"
  shows "followed re_d (rep_plus is_space) (a # b # 32 # c # r) =
           (if 1 \<le> two a b \<and> two a b \<le> 31 then [([a, b], c # r)] else [])"
proof -
  have sp: "rep_plus is_space (32 # c # r) = [([32], c # r)]"
    using assms(3) rep_plus_one_space [of c r] by (simp add: digit_not_space)
  have "is_digit b"
    using assms(2) by (simp add: in_range_def is_digit_ascii)
  then have nb: "rep_plus is_space (b # 32 # c # r) = []"
    using digit_not_space [of b] by (simp add: rep_plus_def seq_def cls_def)
  show ?thesis
    using assms(1,2)
    by (auto simp: re_d_def stage_defs sp nb digit_val_ascii is_digit_ascii)
qed

lemma stage_H:
  assumes "in_range (CHR ''0'') (CHR ''9'') a" "in_range (CHR ''0'') (CHR ''9'') b"
  shows "followed re_H (lit (CHR '':'')) (a # b # 58 # r) =
           (if two a b \<le> 23 then [([a, b], r)] else [])"
  using assms
  by (auto simp: re_H_def stage_defs digit_val_ascii is_digit_ascii)

lemma stage_M:
  assumes "in_range (CHR ''0'') (CHR ''9'') a" "in_range (CHR ''0'') (CHR ''9'') b"
  shows "followed re_M (lit (CHR '':'')) (a # b # 58 # r) =
           (if two a b \<le> 59 then [([a, b], r)] else [])"
  using assms
  by (auto simp: re_M_def stage_defs digit_val_ascii is_digit_ascii)

lemma stage_S:
  assumes "in_range (CHR ''0'') (CHR ''9'') a" "in_range (CHR ''0'') (CHR ''9'') b"
  shows "followed re_S (lit (CHR ''.'')) (a # b # 46 # r) =
           (if two a b \<le> 61 then [([a, b], r)] else [])"
  using assms
  by (auto simp: re_S_def stage_defs digit_val_ascii is_digit_ascii)

lemma rep_upto_5: "rep_upto 5 P s = rep_upto (Suc (Suc (Suc (Suc (Suc 0))))) P s"
  by (simp add: eval_nat_numeral)

lemma stage_f:
  assumes "in_range (CHR ''0'') (CHR ''9'') a" "in_range (CHR ''0'') (CHR ''9'') b"
    "in_range (CHR ''0'') (CHR ''9'') c" "in_range (CHR ''0'') (CHR ''9'') d"
    "in_range (CHR ''0'') (CHR ''9'') e" "in_range (CHR ''0'') (CHR ''9'') f"
  shows "\<exists>others. re_f [a, b, c, d, e, f] = ([a, b, c, d, e, f], []) # others"
  using assms by (simp add: re_f_def seq_def cls_def rep_upto_5)

lemma foldl_decimal:
  "foldl (\<lambda>a c. 10 * a + digit_val c) n cs = n * 10 ^ length cs + decimal cs"
  by (induction cs arbitrary: n) (simp_all add: algebra_simps)

lemma py_int_digits: "is_digit c \<Longrightarrow> py_int (c # cs) = decimal (c # cs)"
  by (simp add: py_int_def digit_not_space foldl_decimal)

lemma decimal_two: "decimal [a, b] = two a b"
  by (simp add: two_def)

lemma ascii_digit: "in_range (CHR ''0'') (CHR ''9'') c \<Longrightarrow> is_digit c"
  by (simp add: in_range_def is_digit_ascii)

lemma format_regex_fixed:
  assumes dg: "in_range (CHR ''0'') (CHR ''9'') y1" "in_range (CHR ''0'') (CHR ''9'') y2"
    "in_range (CHR ''0'') (CHR ''9'') y3" "in_range (CHR ''0'') (CHR ''9'') y4"
    "in_range (CHR ''0'') (CHR ''9'') m1" "in_range (CHR ''0'') (CHR ''9'') m2"
    "in_range (CHR ''0'') (CHR ''9'') d1" "in_range (CHR ''0'') (CHR ''9'') d2"
    "in_range (CHR ''0'') (CHR ''9'') H1" "in_range (CHR ''0'') (CHR ''9'') H2"
    "in_range (CHR ''0'') (CHR ''9'') M1" "in_range (CHR ''0'') (CHR ''9'') M2"
    "in_range (CHR ''0'') (CHR ''9'') S1" "in_range (CHR ''0'') (CHR ''9'') S2"
  shows "format_regex [y1, y2, y3, y4, 45, m1, m2, 45, d1, d2,
          32, H1, H2, 58, M1, M2, 58, S1, S2,
          46, f1, f2, f3, f4, f5, f6] =
      (if (1 \<le> two m1 m2 \<and> two m1 m2 \<le> 12) \<and> (1 \<le> two d1 d2 \<and> two d1 d2 \<le> 31) \<and>
             two H1 H2 \<le> 23 \<and> two M1 M2 \<le> 59 \<and> two S1 S2 \<le> 61 then
         map (\<lambda>(g, r). (([y1, y2, y3, y4], [m1, m2], [d1, d2], [H1, H2], [M1, M2], [S1, S2], g), r))
           (re_f [f1, f2, f3, f4, f5, f6])
       else [])"
  unfolding format_regex_def
  by (simp add: stage_Y stage_m stage_d stage_H stage_M stage_S dg ascii_digit)

lemma fixed_instant_fields:
  "fixed_instant [y1, y2, y3, y4, 45, m1, m2, 45, d1, d2,
          32, H1, H2, 58, M1, M2, 58, S1, S2,
          46, f1, f2, f3, f4, f5, f6] =
      \<lparr>year = decimal [y1, y2, y3, y4], month = two m1 m2, day = two d1 d2, hour = two H1 H2,
       minute = two M1 M2, second = two S1 S2, microsecond = decimal [f1, f2, f3, f4, f5, f6]\<rparr>"
  by (simp add: fixed_instant_def two_def)

lemma strptime_first_match:
  assumes dg: "is_digit y1" "is_digit m1" "is_digit d1" "is_digit H1" "is_digit M1"
    "is_digit S1" "is_digit f1"
  and fr: "format_regex s = (([y1, y2, y3, y4], [m1, m2], [d1, d2], [H1, H2], [M1, M2],
      [S1, S2], [f1, f2, f3, f4, f5, f6]), []) # others"
  and inst: "fixed_instant s =
      \<lparr>year = decimal [y1, y2, y3, y4], month = two m1 m2, day = two d1 d2, hour = two H1 H2,
       minute = two M1 M2, second = two S1 S2, microsecond = decimal [f1, f2, f3, f4, f5, f6]\<rparr>"
  shows "strptime s =
           (if valid_datetime (fixed_instant s) then Inr (fixed_instant s) else Inl ValueError)"
  by (simp add: strptime_def fr inst py_int_digits dg decimal_two del: decimal.simps)

lemma out_of_range_invalid:
  assumes "\<not> ((1 \<le> two m1 m2 \<and> two m1 m2 \<le> 12) \<and> (1 \<le> two d1 d2 \<and> two d1 d2 \<le> 31) \<and>
             two H1 H2 \<le> 23 \<and> two M1 M2 \<le> 59 \<and> two S1 S2 \<le> 61)"
  shows "\<not> valid_datetime \<lparr>year = y, month = two m1 m2, day = two d1 d2, hour = two H1 H2,
       minute = two M1 M2, second = two S1 S2, microsecond = us\<rparr>"
proof -
  have "days_in_month y (two m1 m2) \<le> 31"
    by (simp add: days_in_month_def)
  then show ?thesis
    using assms by (auto simp: valid_datetime_def valid_date_def)
qed

lemma strptime_fixed_chars:
  assumes s: "s = [y1, y2, y3, y4, 45, m1, m2, 45, d1, d2,
          32, H1, H2, 58, M1, M2, 58, S1, S2,
          46, f1, f2, f3, f4, f5, f6]"
    and dg: "in_range (CHR ''0'') (CHR ''9'') y1" "in_range (CHR ''0'') (CHR ''9'') y2"
    "in_range (CHR ''0'') (CHR ''9'') y3" "in_range (CHR ''0'') (CHR ''9'') y4"
    "in_range (CHR ''0'') (CHR ''9'') m1" "in_range (CHR ''0'') (CHR ''9'') m2"
    "in_range (CHR ''0'') (CHR ''9'') d1" "in_range (CHR ''0'') (CHR ''9'') d2"
    "in_range (CHR ''0'') (CHR ''9'') H1" "in_range (CHR ''0'') (CHR ''9'') H2"
    "in_range (CHR ''0'') (CHR ''9'') M1" "in_range (CHR ''0'') (CHR ''9'') M2"
    "in_range (CHR ''0'') (CHR ''9'') S1" "in_range (CHR ''0'') (CHR ''9'') S2"
    "in_range (CHR ''0'') (CHR ''9'') f1" "in_range (CHR ''0'') (CHR ''9'') f2"
    "in_range (CHR ''0'') (CHR ''9'') f3" "in_range (CHR ''0'') (CHR ''9'') f4"
    "in_range (CHR ''0'') (CHR ''9'') f5" "in_range (CHR ''0'') (CHR ''9'') f6"
  shows "strptime s =
           (if valid_datetime (fixed_instant s) then Inr (fixed_instant s) else Inl ValueError)"
proof -
  obtain others where f: "re_f [f1, f2, f3, f4, f5, f6] = ([f1, f2, f3, f4, f5, f6], []) # others"
    using stage_f [OF dg(15-20)] by blast
  let ?ok = "(1 \<le> two m1 m2 \<and> two m1 m2 \<le> 12) \<and> (1 \<le> two d1 d2 \<and> two d1 d2 \<le> 31) \<and>
             two H1 H2 \<le> 23 \<and> two M1 M2 \<le> 59 \<and> two S1 S2 \<le> 61"
  note fr = format_regex_fixed [OF dg(1-14), of f1 f2 f3 f4 f5 f6, folded s]
  note inst = fixed_instant_fields [of y1 y2 y3 y4 m1 m2 d1 d2 H1 H2 M1 M2 S1 S2 f1 f2 f3 f4 f5 f6,
      folded s]
  show ?thesis
  proof (cases ?ok)
    case True
    then have "format_regex s = (([y1, y2, y3, y4], [m1, m2], [d1, d2], [H1, H2], [M1, M2],
      [S1, S2], [f1, f2, f3, f4, f5, f6]), []) #
        map (\<lambda>(g, r). (([y1, y2, y3, y4], [m1, m2], [d1, d2], [H1, H2], [M1, M2], [S1, S2], g), r))
          others"
      by (simp only: fr f if_True list.map prod.case simp_thms)
    then show ?thesis
      using inst
      by (rule strptime_first_match [OF ascii_digit [OF dg(1)] ascii_digit [OF dg(5)]
            ascii_digit [OF dg(7)] ascii_digit [OF dg(9)] ascii_digit [OF dg(11)]
            ascii_digit [OF dg(13)] ascii_digit [OF dg(15)]])
  next
    case False
    then have "\<not> valid_datetime (fixed_instant s)"
      unfolding inst by (rule out_of_range_invalid)
    moreover have "format_regex s = []"
      using False by (simp only: fr if_False)
    ultimately show ?thesis
      by (simp add: strptime_def)
  qed
qed

lemma fixed_format_chars:
  assumes "fixed_format s"
  shows "s = [s ! 0, s ! 1, s ! 2, s ! 3, 45, s ! 5, s ! 6, 45,
      s ! 8, s ! 9, 32, s ! 11, s ! 12, 58, s ! 14, s ! 15,
      58, s ! 17, s ! 18, 46,
      s ! 20, s ! 21, s ! 22, s ! 23, s ! 24, s ! 25]"
    and "in_range (CHR ''0'') (CHR ''9'') (s ! 0)" "in_range (CHR ''0'') (CHR ''9'') (s ! 1)"
    "in_range (CHR ''0'') (CHR ''9'') (s ! 2)" "in_range (CHR ''0'') (CHR ''9'') (s ! 3)"
    "in_range (CHR ''0'') (CHR ''9'') (s ! 5)" "in_range (CHR ''0'') (CHR ''9'') (s ! 6)"
    "in_range (CHR ''0'') (CHR ''9'') (s ! 8)" "in_range (CHR ''0'') (CHR ''9'') (s ! 9)"
    "in_range (CHR ''0'') (CHR ''9'') (s ! 11)" "in_range (CHR ''0'') (CHR ''9'') (s ! 12)"
    "in_range (CHR ''0'') (CHR ''9'') (s ! 14)" "in_range (CHR ''0'') (CHR ''9'') (s ! 15)"
    "in_range (CHR ''0'') (CHR ''9'') (s ! 17)" "in_range (CHR ''0'') (CHR ''9'') (s ! 18)"
    "in_range (CHR ''0'') (CHR ''9'') (s ! 20)" "in_range (CHR ''0'') (CHR ''9'') (s ! 21)"
    "in_range (CHR ''0'') (CHR ''9'') (s ! 22)" "in_range (CHR ''0'') (CHR ''9'') (s ! 23)"
    "in_range (CHR ''0'') (CHR ''9'') (s ! 24)" "in_range (CHR ''0'') (CHR ''9'') (s ! 25)"
  using assms unfolding fixed_format_def fixed_template_def
  by (auto simp: list_all2_Cons1)

lemma strptime_fixed:
  assumes "fixed_format s"
  shows "strptime s =
           (if valid_datetime (fixed_instant s) then Inr (fixed_instant s) else Inl ValueError)"
  by (rule strptime_fixed_chars [OF fixed_format_chars [OF assms]])

subsection \<open>Every string that is parsed has the accepted form\<close>

lemma cls_sound: "(a, r) \<in> set (cls P s) \<Longrightarrow> \<exists>c. a = [c] \<and> P c \<and> s = c # r"
  by (auto simp: cls_def split: list.splits if_splits)

lemma lit_sound: "(a, r) \<in> set (lit c s) \<Longrightarrow> a = [of_char c] \<and> s = of_char c # r"
  by (auto simp: lit_def dest: cls_sound)

lemma seq_sound:
  "(a, r) \<in> set (seq p q s) \<Longrightarrow> \<exists>a1 a2 r1. a = a1 @ a2 \<and> (a1, r1) \<in> set (p s) \<and> (a2, r) \<in> set (q r1)"
  by (auto simp: seq_def)

lemma followed_sound:
  "(a, r) \<in> set (followed p q s) \<Longrightarrow> \<exists>b r1. (a, r1) \<in> set (p s) \<and> (b, r) \<in> set (q r1)"
  by (auto simp: followed_def)

lemma rep_upto_sound:
  "(a, r) \<in> set (rep_upto n P s) \<Longrightarrow> s = a @ r \<and> list_all P a \<and> length a \<le> n"
  by (induction n P s arbitrary: a r rule: rep_upto.induct) (auto split: if_splits)

lemma rep_plus_sound:
  "(a, r) \<in> set (rep_plus P s) \<Longrightarrow> s = a @ r \<and> a \<noteq> [] \<and> list_all P a"
  by (auto simp: rep_plus_def dest!: seq_sound cls_sound rep_upto_sound)

lemmas text_defs = pair_def single_def is_char_def

lemma re_Y_sound: "(a, r) \<in> set (re_Y s) \<Longrightarrow> s = a @ r \<and> year_text a"
  by (auto simp: re_Y_def year_text_def dest!: seq_sound cls_sound)

lemma re_m_sound: "(a, r) \<in> set (re_m s) \<Longrightarrow> s = a @ r \<and> month_text a"
  by (auto simp: re_m_def alts_def month_text_def text_defs dest!: seq_sound cls_sound lit_sound)

lemma re_H_sound: "(a, r) \<in> set (re_H s) \<Longrightarrow> s = a @ r \<and> hour_text a"
  by (auto simp: re_H_def alts_def hour_text_def text_defs dest!: seq_sound cls_sound lit_sound)



lemma re_M_sound: "(a, r) \<in> set (re_M s) \<Longrightarrow> s = a @ r \<and> minute_text a"
  by (auto simp: re_M_def alts_def minute_text_def text_defs dest!: seq_sound cls_sound lit_sound)


lemma re_S_sound: "(a, r) \<in> set (re_S s) \<Longrightarrow> s = a @ r \<and> second_text a"
  by (auto simp: re_S_def alts_def second_text_def text_defs dest!: seq_sound cls_sound lit_sound)


lemma re_f_sound: "(a, r) \<in> set (re_f s) \<Longrightarrow> s = a @ r \<and> fraction_text a"
  by (auto simp: re_f_def fraction_text_def dest!: seq_sound cls_sound rep_upto_sound)



lemma re_d_sound: "(a, r) \<in> set (re_d s) \<Longrightarrow> s = a @ r \<and> day_text a"
  by (auto simp: re_d_def alts_def day_text_def text_defs dest!: seq_sound cls_sound lit_sound)

lemma followed_lit_sound:
  assumes "(a, r) \<in> set (followed p (lit c) s)"
    and "\<And>a r. (a, r) \<in> set (p s) \<Longrightarrow> s = a @ r \<and> Q a"
  shows "s = a @ of_char c # r \<and> Q a"
  using assms by (auto dest!: followed_sound lit_sound)

lemma followed_space_sound:
  assumes "(a, r) \<in> set (followed p (rep_plus is_space) s)"
    and "\<And>a r. (a, r) \<in> set (p s) \<Longrightarrow> s = a @ r \<and> Q a"
  shows "\<exists>ws. s = a @ ws @ r \<and> ws \<noteq> [] \<and> list_all is_space ws \<and> Q a"
  using assms by (auto dest!: followed_sound rep_plus_sound)

lemma format_regex_sound:
  assumes "((Y, m, d, H, M, S, f), r) \<in> set (format_regex s)"
  shows "\<exists>ws. s = Y @ 45 # m @ 45 # d @ ws @ H @ 58 # M @ 58 # S @ 46 # f @ r \<and>
        year_text Y \<and> month_text m \<and> day_text d \<and> ws \<noteq> [] \<and> list_all is_space ws \<and>
        hour_text H \<and> minute_text M \<and> second_text S \<and> fraction_text f"
proof -
  from assms obtain r1 r2 r3 r4 r5 r6 where
    1: "(Y, r1) \<in> set (followed re_Y (lit (CHR ''-'')) s)" and
    2: "(m, r2) \<in> set (followed re_m (lit (CHR ''-'')) r1)" and
    3: "(d, r3) \<in> set (followed re_d (rep_plus is_space) r2)" and
    4: "(H, r4) \<in> set (followed re_H (lit (CHR '':'')) r3)" and
    5: "(M, r5) \<in> set (followed re_M (lit (CHR '':'')) r4)" and
    6: "(S, r6) \<in> set (followed re_S (lit (CHR ''.'')) r5)" and
    7: "(f, r) \<in> set (re_f r6)"
    unfolding format_regex_def by auto
  have Y: "s = Y @ of_char (CHR ''-'') # r1 \<and> year_text Y"
    using 1 by (rule followed_lit_sound) (rule re_Y_sound)
  have m: "r1 = m @ of_char (CHR ''-'') # r2 \<and> month_text m"
    using 2 by (rule followed_lit_sound) (rule re_m_sound)
  obtain ws where d: "r2 = d @ ws @ r3" "ws \<noteq> []" "list_all is_space ws" "day_text d"
    using followed_space_sound [OF 3, of day_text] re_d_sound by blast
  have H: "r3 = H @ of_char (CHR '':'') # r4 \<and> hour_text H"
    using 4 by (rule followed_lit_sound) (rule re_H_sound)
  have M: "r4 = M @ of_char (CHR '':'') # r5 \<and> minute_text M"
    using 5 by (rule followed_lit_sound) (rule re_M_sound)
  have S: "r5 = S @ of_char (CHR ''.'') # r6 \<and> second_text S"
    using 6 by (rule followed_lit_sound) (rule re_S_sound)
  have f: "r6 = f @ r \<and> fraction_text f"
    using 7 by (rule re_f_sound)
  show ?thesis
    using Y m d H M S f by (intro exI [of _ ws]) simp
qed

lemma decimal_append: "decimal (a @ b) = decimal a * 10 ^ length b + decimal b"
proof (induction a)
  case Nil
  show ?case by simp
next
  case (Cons c a)
  have "digit_val c * 10 ^ length (a @ b) = digit_val c * 10 ^ length a * 10 ^ length b"
    by (simp add: power_add)
  with Cons show ?case
    by (simp add: distrib_right)
qed

lemma decimal_zeros: "decimal (replicate k 48) = 0"
  by (induction k) (simp_all add: digit_val_ascii)

lemma py_int_all_digits: "list_all is_digit a \<Longrightarrow> py_int a = decimal a"
proof (cases a)
  case Nil
  then show ?thesis by (simp add: py_int_def)
next
  case (Cons c cs)
  assume "list_all is_digit a"
  with Cons have "is_digit c" by simp
  then show ?thesis unfolding Cons by (rule py_int_digits)
qed

text \<open>The texts of the fields are numerals.\<close>

lemma year_digits: "year_text a \<Longrightarrow> list_all is_digit a"
  by (simp add: year_text_def)

lemma month_digits: "month_text a \<Longrightarrow> list_all is_digit a"
  by (auto simp: month_text_def text_defs in_range_def is_digit_ascii)

lemma hour_digits: "hour_text a \<Longrightarrow> list_all is_digit a"
  by (auto simp: hour_text_def text_defs in_range_def is_digit_ascii)

lemma minute_digits: "minute_text a \<Longrightarrow> list_all is_digit a"
  by (auto simp: minute_text_def text_defs in_range_def is_digit_ascii)

lemma second_digits: "second_text a \<Longrightarrow> list_all is_digit a"
  by (auto simp: second_text_def text_defs in_range_def is_digit_ascii)

lemma fraction_digits: "fraction_text a \<Longrightarrow> list_all is_digit a"
  by (auto simp: fraction_text_def list_all_iff ascii_digit)

lemma filter_digits: "list_all is_digit a \<Longrightarrow> filter is_digit a = a"
  by (induction a) simp_all

lemma blank_not_digit: "\<not> is_digit 32"
  using digit_bounds [of 32] by auto

lemma day_value: "day_text a \<Longrightarrow> py_int a = decimal (filter is_digit a)"
proof -
  assume "day_text a"
  then consider "list_all is_digit a"
    | x where "a = [32, x]" "is_digit x"
    by (auto simp: day_text_def text_defs in_range_def is_digit_ascii)
  then show ?thesis
  proof cases
    case 1
    then show ?thesis by (simp add: py_int_all_digits filter_digits)
  next
    case 2
    then show ?thesis
      by (simp add: py_int_def is_space_blank digit_not_space blank_not_digit)
  qed
qed

lemma fraction_value:
  assumes "fraction_text f"
  shows "py_int (f @ replicate (6 - length f) 48) = decimal f * 10 ^ (6 - length f)"
proof -
  have "list_all is_digit (f @ replicate (6 - length f) 48)"
    using fraction_digits [OF assms] by (auto simp: list_all_iff is_digit_ascii)
  then show ?thesis
    by (simp add: py_int_all_digits decimal_append decimal_zeros)
qed

lemma group_values:
  assumes "year_text Y" "month_text m" "day_text d" "hour_text H" "minute_text M"
    "second_text S" "fraction_text f"
  shows "\<lparr>year = py_int Y, month = py_int m, day = py_int d, hour = py_int H,
           minute = py_int M, second = py_int S,
           microsecond = py_int (f @ replicate (6 - length f) 48)\<rparr> =
         \<lparr>year = decimal Y, month = decimal m, day = decimal (filter is_digit d),
           hour = decimal H, minute = decimal M, second = decimal S,
           microsecond = decimal f * 10 ^ (6 - length f)\<rparr>"
  using assms
  by (simp add: py_int_all_digits year_digits month_digits hour_digits minute_digits
      second_digits day_value fraction_value)

lemma strptime_sound:
  assumes "strptime s = Inr t"
  shows "accepted_form s t \<and> valid_datetime t"
proof -
  from assms obtain Y m d H M S f others where
    fr: "format_regex s = ((Y, m, d, H, M, S, f), []) # others" and
    t: "t = \<lparr>year = py_int Y, month = py_int m, day = py_int d, hour = py_int H,
             minute = py_int M, second = py_int S,
             microsecond = py_int (f @ replicate (6 - length f) 48)\<rparr>" and
    v: "valid_datetime t"
    by (auto simp: strptime_def Let_def split: list.splits if_splits)
  have "((Y, m, d, H, M, S, f), []) \<in> set (format_regex s)"
    by (simp add: fr)
  from format_regex_sound [OF this] obtain ws where
    s: "s = Y @ 45 # m @ 45 # d @ ws @ H @ 58 # M @ 58 # S @ 46 # f" and
    sh: "year_text Y" "month_text m" "day_text d" "hour_text H" "minute_text M"
      "second_text S" "fraction_text f" and
    ws: "ws \<noteq> []" "list_all is_space ws"
    by auto
  have "t = \<lparr>year = decimal Y, month = decimal m, day = decimal (filter is_digit d),
             hour = decimal H, minute = decimal M, second = decimal S,
             microsecond = decimal f * 10 ^ (6 - length f)\<rparr>"
    unfolding t by (rule group_values [OF sh])
  moreover have "s = Y @ str ''-'' @ m @ str ''-'' @ d @ ws @ H @ str '':'' @ M @ str '':'' @ S @
      str ''.'' @ f"
    by (simp add: s)
  ultimately have "accepted_form s t"
    unfolding accepted_form_def using sh ws by blast
  with v show ?thesis by simp
qed

subsection \<open>Every string of the accepted form that denotes a valid instant is parsed\<close>

lemma digit_not_separator: "is_digit c \<Longrightarrow> c \<noteq> 45 \<and> c \<noteq> 46 \<and> c \<noteq> 58 \<and> c \<noteq> 32"
  using digit_bounds [of c] by auto

lemma separator_not_digit: "\<not> is_digit 45" "\<not> is_digit 46" "\<not> is_digit 58"
  using digit_bounds [of 45] digit_bounds [of 46] digit_bounds [of 58] by auto

lemma any_Y:
  assumes "year_text Y"
  shows "followed re_Y (lit (CHR ''-'')) (Y @ 45 # r) = [(Y, r)]"
proof -
  from assms have "length Y = 4" and d: "list_all is_digit Y"
    by (auto simp: year_text_def)
  then obtain a b c e where "Y = [a, b, c, e]"
    by (cases Y; cases "tl Y"; cases "tl (tl Y)"; cases "tl (tl (tl Y))") auto
  with d show ?thesis
    by (simp add: stage_Y)
qed

lemma any_m:
  assumes "month_text m"
  shows "followed re_m (lit (CHR ''-'')) (m @ 45 # r) = [(m, r)]"
  using assms
  by (auto simp: month_text_def text_defs re_m_def stage_defs)

lemma any_H:
  assumes "hour_text H"
  shows "followed re_H (lit (CHR '':'')) (H @ 58 # r) = [(H, r)]"
  using assms
  by (auto simp: hour_text_def text_defs re_H_def stage_defs is_digit_ascii separator_not_digit
      dest: digit_not_separator)

lemma any_M:
  assumes "minute_text M"
  shows "followed re_M (lit (CHR '':'')) (M @ 58 # r) = [(M, r)]"
  using assms
  by (auto simp: minute_text_def text_defs re_M_def stage_defs is_digit_ascii separator_not_digit
      dest: digit_not_separator)

lemma any_S:
  assumes "second_text S"
  shows "followed re_S (lit (CHR ''.'')) (S @ 46 # r) = [(S, r)]"
  using assms
  by (auto simp: second_text_def text_defs re_S_def stage_defs is_digit_ascii separator_not_digit
      dest: digit_not_separator)

text \<open>A run of white space before a digit: the longest match comes first, and every other
  match leaves white space behind.\<close>

lemma rep_upto_run:
  assumes "list_all is_space ws" "\<not> is_space c" "length ws \<le> n"
  shows "\<exists>rs. rep_upto n is_space (ws @ c # r) = (ws, c # r) # rs \<and> spacey rs"
  using assms
proof (induction ws arbitrary: n)
  case Nil
  then show ?case by (cases n) (simp_all add: spacey_def)
next
  case (Cons x ws)
  then obtain k where n: "n = Suc k" and k: "length ws \<le> k"
    by (cases n) auto
  from Cons.prems have x: "is_space x" and ws: "list_all is_space ws"
    by auto
  from Cons.IH [OF ws Cons.prems(2) k] obtain rs where
    rs: "rep_upto k is_space (ws @ c # r) = (ws, c # r) # rs" "spacey rs"
    by blast
  have "spacey (map (\<lambda>(t, r'). (x # t, r')) rs @ [([], x # ws @ c # r)])"
    using rs(2) x by (auto simp: spacey_def list_all_iff)
  with rs(1) x n show ?case
    by simp
qed

lemma rep_plus_run:
  assumes "ws \<noteq> []" "list_all is_space ws" "\<not> is_space c"
  shows "\<exists>rs. rep_plus is_space (ws @ c # r) = (ws, c # r) # rs \<and> spacey rs"
proof -
  from assms obtain x ws' where w: "ws = x # ws'" "is_space x" "list_all is_space ws'"
    by (cases ws) auto
  have "length ws' \<le> length (ws @ c # r)"
    by (simp add: w)
  from rep_upto_run [OF w(3) assms(3) this, of r] obtain rs where
    rs: "rep_upto (length (ws @ c # r)) is_space (ws' @ c # r) = (ws', c # r) # rs" "spacey rs"
    by blast
  have "spacey (map (\<lambda>(t, r'). (x # t, r')) rs)"
    using rs(2) by (auto simp: spacey_def list_all_iff)
  with rs(1) w show ?thesis
    by (auto simp: rep_plus_def seq_def cls_def simp del: rep_upto.simps)
qed

lemma rep_plus_no_space: "\<not> is_space c \<Longrightarrow> rep_plus is_space (c # r) = []"
  by (simp add: rep_plus_def seq_def cls_def)

text \<open>The day before white space: its text is the first match, and the only other match
  stops before a digit.\<close>

lemma re_d_text:
  assumes "day_text d" "is_space x"
  shows "re_d (d @ x # r) = [(d, x # r)] \<or>
         (\<exists>a b. d = [a, b] \<and> is_digit b \<and> re_d (d @ x # r) = [(d, x # r), ([a], b # x # r)])"
proof -
  have x: "\<not> is_digit x" "x \<noteq> 48" "x \<noteq> 49" "\<not> (49 \<le> x \<and> x \<le> 57)"
    using assms(2) digit_not_space [of x] is_digit_ascii [of x] by auto
  show ?thesis
    using assms(1) x
    by (auto simp: day_text_def text_defs re_d_def stage_defs is_digit_ascii)
qed

lemma any_d:
  assumes "day_text d" "ws \<noteq> []" "list_all is_space ws" "is_digit c"
  shows "\<exists>rs. followed re_d (rep_plus is_space) (d @ ws @ c # r) = (d, c # r) # rs"
proof -
  from rep_plus_run [OF assms(2,3) digit_not_space [OF assms(4)], of r] obtain rs0 where
    run: "rep_plus is_space (ws @ c # r) = (ws, c # r) # rs0"
    by blast
  from assms(2,3) obtain x ws' where w: "ws = x # ws'" "is_space x"
    by (cases ws) auto
  from re_d_text [OF assms(1) w(2), of "ws' @ c # r"] show ?thesis
  proof
    assume "re_d (d @ x # ws' @ c # r) = [(d, x # ws' @ c # r)]"
    then show ?thesis
      using run by (simp add: followed_def w)
  next
    assume "\<exists>a b. d = [a, b] \<and> is_digit b \<and>
      re_d (d @ x # ws' @ c # r) = [(d, x # ws' @ c # r), ([a], b # x # ws' @ c # r)]"
    then show ?thesis
      using run by (auto simp: followed_def w rep_plus_no_space digit_not_space)
  qed
qed

lemma rep_upto_all:
  assumes "list_all P a" "length a \<le> n"
  shows "\<exists>others. rep_upto n P a = (a, []) # others"
  using assms
proof (induction a arbitrary: n)
  case Nil
  then show ?case by (cases n) simp_all
next
  case (Cons x a)
  then obtain k where n: "n = Suc k" and k: "length a \<le> k"
    by (cases n) auto
  from Cons.prems have x: "P x" and a: "list_all P a"
    by auto
  from Cons.IH [OF a k] obtain others where "rep_upto k P a = (a, []) # others"
    by blast
  with x n show ?case by simp
qed

lemma any_f:
  assumes "fraction_text f"
  shows "\<exists>others. re_f f = (f, []) # others"
proof -
  from assms obtain x f' where f: "f = x # f'" "in_range (CHR ''0'') (CHR ''9'') x"
      "list_all (in_range (CHR ''0'') (CHR ''9'')) f'" "length f' \<le> 5"
    by (cases f) (auto simp: fraction_text_def)
  from rep_upto_all [OF f(3,4)] obtain others where
    "rep_upto 5 (in_range (CHR ''0'') (CHR ''9'')) f' = (f', []) # others"
    by blast
  with f show ?thesis
    by (simp add: re_f_def seq_def cls_def)
qed

lemma hour_first: "hour_text H \<Longrightarrow> \<exists>h H'. H = h # H' \<and> is_digit h"
  by (auto simp: hour_text_def text_defs in_range_def is_digit_ascii)

lemma strptime_accepted:
  assumes "accepted_form s t" and valid: "valid_datetime t"
  shows "strptime s = Inr t"
proof -
  from assms(1) obtain Y m d ws H M S f where
    s: "s = Y @ 45 # m @ 45 # d @ ws @ H @ 58 # M @ 58 # S @ 46 # f" and
    sh: "year_text Y" "month_text m" "day_text d" "hour_text H" "minute_text M"
      "second_text S" "fraction_text f" and
    ws: "ws \<noteq> []" "list_all is_space ws" and
    t: "t = \<lparr>year = decimal Y, month = decimal m, day = decimal (filter is_digit d),
             hour = decimal H, minute = decimal M, second = decimal S,
             microsecond = decimal f * 10 ^ (6 - length f)\<rparr>"
    unfolding accepted_form_def by auto
  from hour_first [OF sh(4)] obtain h H' where H: "H = h # H'" "is_digit h"
    by blast
  define r6 where "r6 = f"
  define r5 where "r5 = S @ 46 # r6"
  define r4 where "r4 = M @ 58 # r5"
  define r3 where "r3 = H' @ 58 # r4"
  define r2 where "r2 = d @ ws @ h # r3"
  define r1 where "r1 = m @ 45 # r2"
  have s': "s = Y @ 45 # r1"
    by (simp add: s r1_def r2_def r3_def r4_def r5_def r6_def H)
  have 1: "followed re_Y (lit (CHR ''-'')) s = [(Y, r1)]"
    unfolding s' by (rule any_Y [OF sh(1)])
  have 2: "followed re_m (lit (CHR ''-'')) r1 = [(m, r2)]"
    unfolding r1_def by (rule any_m [OF sh(2)])
  obtain rs where 3: "followed re_d (rep_plus is_space) r2 = (d, h # r3) # rs"
    unfolding r2_def using any_d [OF sh(3) ws H(2)] by blast
  have 4: "followed re_H (lit (CHR '':'')) (h # r3) = [(H, r4)]"
    using any_H [OF sh(4), of r4] by (simp add: H r3_def)
  have 5: "followed re_M (lit (CHR '':'')) r4 = [(M, r5)]"
    unfolding r4_def by (rule any_M [OF sh(5)])
  have 6: "followed re_S (lit (CHR ''.'')) r5 = [(S, r6)]"
    unfolding r5_def by (rule any_S [OF sh(6)])
  obtain others where 7: "re_f r6 = (f, []) # others"
    unfolding r6_def using any_f [OF sh(7)] by blast
  have "\<exists>rest. format_regex s = ((Y, m, d, H, M, S, f), []) # rest"
    unfolding format_regex_def by (simp add: 1 2 3 4 5 6 7)
  then obtain rest where fr: "format_regex s = ((Y, m, d, H, M, S, f), []) # rest"
    by blast
  show ?thesis
    using valid by (simp add: strptime_def fr group_values [OF sh] t [symmetric])
qed

subsection \<open>\<^verbatim>\<open>safe_timestamp\<close>\<close>

lemma fixed_format_length: "fixed_format s \<Longrightarrow> length s = 26"
  by (auto simp: fixed_format_def fixed_template_def dest: list_all2_lengthD)

lemma fixed_format_not_sentinel: "fixed_format s \<Longrightarrow> \<not> sentinel (PStr s)"
  by (auto simp: sentinel_def dest: fixed_format_length)

lemma accepted_form_not_sentinel: "accepted_form s t \<Longrightarrow> \<not> sentinel (PStr s)"
proof -
  assume "accepted_form s t"
  then have "5 \<le> length s"
    by (auto simp: accepted_form_def year_text_def)
  then show ?thesis
    by (auto simp: sentinel_def)
qed

lemma safe_timestamp_unfold:
  "safe_timestamp v =
     (if sentinel v then PNone
      else case datetime_strptime v of Inr t \<Rightarrow> PDatetime t | Inl e \<Rightarrow> PNone)"
  by (auto simp: safe_timestamp_def sentinel_def)

lemma safe_timestamp_not_str: "(\<forall>x. v \<noteq> PStr x) \<Longrightarrow> safe_timestamp v = PNone"
  by (cases v) (simp_all add: safe_timestamp_unfold datetime_strptime_def)

lemma safe_timestamp_result:
  "safe_timestamp v = PNone \<or>
   (\<exists>x t. v = PStr x \<and> accepted_form x t \<and> valid_datetime t \<and> safe_timestamp v = PDatetime t)"
  by (cases v) (auto simp: safe_timestamp_unfold datetime_strptime_def dest: strptime_sound split: sum.splits)

text \<open>
  Claim C2, as amended. For every string in the fixed format
  \<^verbatim>\<open>YYYY-MM-DD HH:MM:SS.ffffff\<close>, \<^verbatim>\<open>safe_timestamp\<close> returns exactly the instant that
  the string denotes when that is a date and a time of day that exist, and \<^verbatim>\<open>None\<close> when
  it is not. The same holds for every string of the accepted form, which is wider than the
  fixed format: it is parsed to the instant it denotes when that is valid. For every value
  that is not a string and for every sentinel form the result is \<^verbatim>\<open>None\<close>. Whatever the
  input, the result is \<^verbatim>\<open>None\<close> or the valid datetime denoted by an input string of the
  accepted form; it is never 0.
\<close>

theorem safe_timestamp_cases:
  "(fixed_format s \<longrightarrow>
      safe_timestamp (PStr s) =
        (if valid_datetime (fixed_instant s) then PDatetime (fixed_instant s) else PNone)) \<and>
   (accepted_form s t \<and> valid_datetime t \<longrightarrow> safe_timestamp (PStr s) = PDatetime t) \<and>
   ((\<forall>x. v \<noteq> PStr x) \<longrightarrow> safe_timestamp v = PNone) \<and>
   (sentinel v \<longrightarrow> safe_timestamp v = PNone) \<and>
   (safe_timestamp v = PNone \<or>
    (\<exists>x u. v = PStr x \<and> accepted_form x u \<and> valid_datetime u \<and>
       safe_timestamp v = PDatetime u)) \<and>
   safe_timestamp v \<noteq> PInt 0"
proof -
  have "safe_timestamp (PStr s) =
        (if valid_datetime (fixed_instant s) then PDatetime (fixed_instant s) else PNone)"
    if "fixed_format s"
    using that fixed_format_not_sentinel [OF that]
    by (simp add: safe_timestamp_unfold datetime_strptime_def strptime_fixed)
  moreover have "safe_timestamp (PStr s) = PDatetime t"
    if h: "accepted_form s t \<and> valid_datetime t"
  proof -
    from h have "strptime s = Inr t"
      by (blast intro: strptime_accepted)
    moreover from h have "\<not> sentinel (PStr s)"
      by (blast dest: accepted_form_not_sentinel)
    ultimately show ?thesis
      by (simp add: safe_timestamp_unfold datetime_strptime_def)
  qed
  moreover have "safe_timestamp v \<noteq> PInt 0"
    using safe_timestamp_result [of v] by auto
  ultimately show ?thesis
    using safe_timestamp_not_str [of v] safe_timestamp_sentinel [of v] safe_timestamp_result [of v]
    by blast
qed

lemma digit_val_samples:
  "digit_val 48 = 0" "digit_val 49 = 1" "digit_val 50 = 2" "digit_val 51 = 3" "digit_val 52 = 4"
  "digit_val 53 = 5" "digit_val 65296 = 0" "digit_val 65298 = 2" "digit_val 65300 = 4"
  by (simp_all add: digit_val_def digit_zero_def zero_digits_def)

lemma is_digit_samples:
  "is_digit 65296" "is_digit 65298" "is_digit 65300"
  by (simp_all add: is_digit_def digit_zero_def zero_digits_def)

lemma lenient_accepted:
  "accepted_form (str ''2024-1-1 1:2:3.5'')
     \<lparr>year = 2024, month = 1, day = 1, hour = 1, minute = 2, second = 3,
       microsecond = 500000\<rparr>"
  unfolding accepted_form_def
  apply (rule exI [of _ "str ''2024''"], rule exI [of _ "str ''1''"], rule exI [of _ "str ''1''"])
  apply (rule exI [of _ "str '' ''"], rule exI [of _ "str ''1''"], rule exI [of _ "str ''2''"])
  apply (rule exI [of _ "str ''3''"], rule exI [of _ "str ''5''"])
  apply (simp add: year_text_def month_text_def day_text_def hour_text_def minute_text_def
      second_text_def fraction_text_def text_defs in_range_def is_space_blank
      digit_val_samples is_digit_samples is_digit_ascii)
  done

text \<open>A year in full-width digits (U+FF10 to U+FF19).\<close>

lemma full_width_accepted:
  "accepted_form ([65298, 65296, 65298, 65300] @ str ''-01-01 10:00:00.000000'')
     \<lparr>year = 2024, month = 1, day = 1, hour = 10, minute = 0, second = 0, microsecond = 0\<rparr>"
  unfolding accepted_form_def
  apply (rule exI [of _ "[65298, 65296, 65298, 65300]"], rule exI [of _ "str ''01''"])
  apply (rule exI [of _ "str ''01''"], rule exI [of _ "str '' ''"], rule exI [of _ "str ''10''"])
  apply (rule exI [of _ "str ''00''"], rule exI [of _ "str ''00''"], rule exI [of _ "str ''000000''"])
  apply (simp add: year_text_def month_text_def day_text_def hour_text_def minute_text_def
      second_text_def fraction_text_def text_defs in_range_def is_space_blank
      digit_val_samples is_digit_samples is_digit_ascii)
  done

theorem safe_timestamp_cases_witness:
  "fixed_format (str ''2024-01-01 10:00:00.000000'') \<and>
   safe_timestamp (PStr (str ''2024-01-01 10:00:00.000000'')) =
     PDatetime \<lparr>year = 2024, month = 1, day = 1, hour = 10, minute = 0, second = 0,
       microsecond = 0\<rparr> \<and>
   safe_timestamp (PStr (str ''2024-1-1 1:2:3.5'')) =
     PDatetime \<lparr>year = 2024, month = 1, day = 1, hour = 1, minute = 2, second = 3,
       microsecond = 500000\<rparr> \<and>
   safe_timestamp (PStr ([65298, 65296, 65298, 65300] @ str ''-01-01 10:00:00.000000'')) =
     PDatetime \<lparr>year = 2024, month = 1, day = 1, hour = 10, minute = 0, second = 0,
       microsecond = 0\<rparr> \<and>
   safe_timestamp (PInt 7) = PNone \<and>
   sentinel (PStr (str ''NA'')) \<and> safe_timestamp (PStr (str ''NA'')) = PNone"
  using safe_timestamp_cases [of "str ''2024-01-01 10:00:00.000000''" _ "PInt 7"]
    safe_timestamp_cases [of "str ''2024-1-1 1:2:3.5''"
      "\<lparr>year = 2024, month = 1, day = 1, hour = 1, minute = 2, second = 3,
        microsecond = 500000\<rparr>" "PStr (str ''NA'')"]
    safe_timestamp_cases [of "[65298, 65296, 65298, 65300] @ str ''-01-01 10:00:00.000000''"
      "\<lparr>year = 2024, month = 1, day = 1, hour = 10, minute = 0, second = 0,
        microsecond = 0\<rparr>"]
    lenient_accepted full_width_accepted
  by (simp add: fixed_format_def fixed_template_def in_range_def fixed_instant_def
      valid_datetime_def valid_date_def days_in_month_def is_leap_def digit_val_samples
      sentinel_def)

text \<open>
  Claim C2 as stated fails on \<^verbatim>\<open>"2024-1-1 1:2:3.5"\<close>: the string is not in the fixed
  format (no zero padding, one digit of fraction), and it is parsed, not turned into
  \<^verbatim>\<open>None\<close>.
\<close>

theorem lenient_string_counterexample:
  "\<not> fixed_format (str ''2024-1-1 1:2:3.5'') \<and>
   safe_timestamp (PStr (str ''2024-1-1 1:2:3.5'')) =
     PDatetime \<lparr>year = 2024, month = 1, day = 1, hour = 1, minute = 2, second = 3,
       microsecond = 500000\<rparr> \<and>
   safe_timestamp (PStr (str ''2024-1-1 1:2:3.5'')) \<noteq> PNone"
proof -
  have "valid_datetime \<lparr>year = 2024, month = 1, day = 1, hour = 1, minute = 2, second = 3,
       microsecond = 500000\<rparr>"
    by (simp add: valid_datetime_def valid_date_def days_in_month_def)
  with lenient_accepted have "strptime (str ''2024-1-1 1:2:3.5'') =
     Inr \<lparr>year = 2024, month = 1, day = 1, hour = 1, minute = 2, second = 3,
       microsecond = 500000\<rparr>"
    by (rule strptime_accepted)
  moreover have "\<not> fixed_format (str ''2024-1-1 1:2:3.5'')"
    by (simp add: fixed_format_def fixed_template_def in_range_def)
  ultimately show ?thesis
    by (simp add: safe_timestamp_def datetime_strptime_def)
qed

subsection \<open>Digits and white space beyond ASCII\<close>

lemma arabic_indic_hour_accepted:
  "accepted_form (str ''2024-01-01 1'' @ [1632] @ str '':00:00.000000'')
     \<lparr>year = 2024, month = 1, day = 1, hour = 10, minute = 0, second = 0, microsecond = 0\<rparr>"
  unfolding accepted_form_def
  apply (rule exI [of _ "str ''2024''"], rule exI [of _ "str ''01''"])
  apply (rule exI [of _ "str ''01''"], rule exI [of _ "str '' ''"], rule exI [of _ "[49, 1632]"])
  apply (rule exI [of _ "str ''00''"], rule exI [of _ "str ''00''"], rule exI [of _ "str ''000000''"])
  apply (simp add: year_text_def month_text_def day_text_def hour_text_def minute_text_def
      second_text_def fraction_text_def text_defs in_range_def is_space_blank
      digit_val_samples is_digit_ascii)
  apply (simp add: is_digit_def digit_val_def digit_zero_def zero_digits_def)
  done

lemma em_space_accepted:
  "accepted_form (str ''2024-01-01'' @ [8195] @ str ''10:00:00.000000'')
     \<lparr>year = 2024, month = 1, day = 1, hour = 10, minute = 0, second = 0, microsecond = 0\<rparr>"
  unfolding accepted_form_def
  apply (rule exI [of _ "str ''2024''"], rule exI [of _ "str ''01''"])
  apply (rule exI [of _ "str ''01''"], rule exI [of _ "[8195]"], rule exI [of _ "str ''10''"])
  apply (rule exI [of _ "str ''00''"], rule exI [of _ "str ''00''"], rule exI [of _ "str ''000000''"])
  apply (simp add: year_text_def month_text_def day_text_def hour_text_def minute_text_def
      second_text_def fraction_text_def text_defs in_range_def is_space_def spaces_def
      digit_val_samples is_digit_ascii)
  done

lemma clock0_valid: "valid_datetime clock0"
  by (simp add: clock0_def valid_datetime_def valid_date_def days_in_month_def)

lemma beyond_ascii_parsed:
  "safe_timestamp (PStr (str ''2024-01-01 1'' @ [1632] @ str '':00:00.000000'')) =
     PDatetime clock0 \<and>
   safe_timestamp (PStr (str ''2024-01-01'' @ [8195] @ str ''10:00:00.000000'')) =
     PDatetime clock0"
  using strptime_accepted [OF arabic_indic_hour_accepted [folded clock0_def] clock0_valid]
    strptime_accepted [OF em_space_accepted [folded clock0_def] clock0_valid]
  by (simp add: safe_timestamp_def datetime_strptime_def)

lemma full_width_month_not_parsed:
  "safe_timestamp (PStr (str ''2024-'' @ [65296, 65297] @ str ''-01 10:00:00.000000'')) = PNone"
proof -
  have 1: "followed re_Y (lit (CHR ''-''))
      (str ''2024-'' @ [65296, 65297] @ str ''-01 10:00:00.000000'') =
      [(str ''2024'', [65296, 65297] @ str ''-01 10:00:00.000000'')]"
    using stage_Y [of 50 48 50 52] by (simp add: is_digit_ascii)
  have 2: "followed re_m (lit (CHR ''-'')) ([65296, 65297] @ str ''-01 10:00:00.000000'') = []"
    by (simp add: re_m_def stage_defs)
  have "format_regex (str ''2024-'' @ [65296, 65297] @ str ''-01 10:00:00.000000'') = []"
    unfolding format_regex_def using 1 2 by simp
  then show ?thesis
    by (simp add: safe_timestamp_def datetime_strptime_def strptime_def)
qed

section \<open>Rows\<close>

lemma bind_params_values:
  "bind_params adapt names data = Inr row \<Longrightarrow> row = map (\<lambda>n. the (map_of data n)) names"
  by (induction names arbitrary: row) (auto split: option.splits sum.splits)

lemma length_placeholders: "length placeholders = 61"
  by (simp add: placeholders_def)

lemma last_placeholders: "last placeholders = ''created_at''"
  by (simp add: placeholders_def)

lemma bound_row_created_at:
  assumes "bind_params adapt placeholders (build_data now device) = Inr row"
  shows "length row = 61 \<and> last row = PDatetime now"
proof -
  have row: "row = map (\<lambda>n. the (map_of (build_data now device) n)) placeholders"
    using assms by (rule bind_params_values)
  have ne: "placeholders \<noteq> []" by (simp add: placeholders_def)
  show ?thesis
    by (simp add: row length_placeholders last_map ne last_placeholders map_of_build_data)
qed

text \<open>
  Claim C8. For every record and every clock reading, the mapping handed to the statement
  holds the clock reading under \<^verbatim>\<open>created_at\<close>, which is not \<^verbatim>\<open>None\<close>; and a call of
  \<^verbatim>\<open>upsert_device\<close> leaves the table as it was or adds one row of 61 values whose last
  one, the column \<^verbatim>\<open>created_at\<close>, is the clock reading taken while the record was
  normalized.
\<close>

theorem created_at_always_stamped:
  "map_of (build_data now device) ''created_at'' = Some (PDatetime now) \<and>
   PDatetime now \<noteq> PNone \<and>
   (rows (snd (upsert_device c d w)) = rows w \<or>
    (\<exists>row. rows (snd (upsert_device c d w)) = rows w @ [row] \<and> length row = 61 \<and>
       last row = PDatetime (now_created c)))"
  by (auto simp: map_of_build_data upsert_device_def try_insert_def Let_def emit_def
      cursor_close_def dest: bound_row_created_at
      split: option.splits sum.splits prod.splits)

section \<open>One record\<close>

lemma bind_params_present:
  assumes "\<forall>n \<in> set names. \<exists>v. map_of data n = Some v \<and> adapt v = None"
  shows "bind_params adapt names data = Inr (map (\<lambda>n. the (map_of data n)) names)"
  using assms by (induction names) (auto split: option.splits sum.splits)

lemma bind_params_missing:
  assumes "name \<in> set names" and "map_of data name = None"
  shows "\<exists>e. bind_params adapt names data = Inl e"
  using assms by (induction names) (auto split: option.splits sum.splits)

text \<open>The exception that leaves the \<^verbatim>\<open>try\<close> on a record is the failure of the insert.\<close>

lemma try_insert_record:
  "fst (try_insert c (PDict items) w) = insert_error c items"
  "trace (snd (try_insert c (PDict items) w)) =
     trace w @ Executed (build_data (now_created c) items) #
       (case insert_error c items of
          None \<Rightarrow> [Committed, Printed (Inserted (dict_get items ''imei'') (now_logged c))]
        | Some e \<Rightarrow> [])"
  by (auto simp: try_insert_def py_items_def insert_error_def emit_def Let_def
      split: option.splits sum.splits)

lemma upsert_device_escapes:
  assumes "cursor_raises c = None"
  shows "fst (upsert_device c (PDict items) w) =
           (case insert_error c items of None \<Rightarrow> None | Some e \<Rightarrow> rollback_raises c)"
proof -
  obtain r w1 where t: "try_insert c (PDict items) (w\<lparr>open_cursors := open_cursors w + 1\<rparr>) = (r, w1)"
    by (cases "try_insert c (PDict items) (w\<lparr>open_cursors := open_cursors w + 1\<rparr>)")
  then have "r = insert_error c items"
    using try_insert_record(1) [of c items "w\<lparr>open_cursors := open_cursors w + 1\<rparr>"] by simp
  with t assms show ?thesis
    by (cases "insert_error c items"; cases "rollback_raises c") (simp_all add: upsert_device_def)
qed

lemma upsert_device_trace:
  assumes "cursor_raises c = None"
  shows "trace (snd (upsert_device c (PDict items) w)) =
           trace w @
           (if insert_error c items \<noteq> None \<and> rollback_raises c \<noteq> None
            then [Executed (build_data (now_created c) items)]
            else attempt_events c items)"
proof -
  obtain r w1 where t: "try_insert c (PDict items) (w\<lparr>open_cursors := open_cursors w + 1\<rparr>) = (r, w1)"
    by (cases "try_insert c (PDict items) (w\<lparr>open_cursors := open_cursors w + 1\<rparr>)")
  then have r: "r = insert_error c items"
    and w1: "trace w1 = trace w @ Executed (build_data (now_created c) items) #
       (case insert_error c items of
          None \<Rightarrow> [Committed, Printed (Inserted (dict_get items ''imei'') (now_logged c))]
        | Some e \<Rightarrow> [])"
    using try_insert_record [of c items "w\<lparr>open_cursors := open_cursors w + 1\<rparr>"] by simp_all
  from t r w1 assms show ?thesis
    by (cases "insert_error c items"; cases "rollback_raises c")
      (simp_all add: upsert_device_def attempt_events_def emit_def cursor_close_def)
qed

lemma upsert_device_record:
  assumes "cursor_raises c = None" and "rollback_raises c = None"
  shows "fst (upsert_device c (PDict items) w) = None"
    and "trace (snd (upsert_device c (PDict items) w)) = trace w @ attempt_events c items"
  using assms by (simp_all add: upsert_device_escapes upsert_device_trace split: option.splits)

section \<open>The loop over the records\<close>

lemma upt_shift: "map f [0..<Suc n] = f 0 # map (\<lambda>i. f (Suc i)) [0..<n]"
  by (simp add: upt_conv_Cons map_Suc_upt [symmetric] del: upt_Suc)

lemma for_devices_records:
  assumes "\<forall>i < length recs. cursor_raises (dbs (i0 + i)) = None \<and>
             rollback_raises (dbs (i0 + i)) = None"
  shows "fst (for_devices dbs i0 (map PDict recs) w) = None \<and>
         trace (snd (for_devices dbs i0 (map PDict recs) w)) =
           trace w @ concat (map (\<lambda>i. attempt_events (dbs (i0 + i)) (recs ! i)) [0..<length recs])"
  using assms
proof (induction recs arbitrary: i0 w)
  case Nil
  then show ?case by simp
next
  case (Cons items recs)
  from Cons.prems have c0: "cursor_raises (dbs i0) = None" "rollback_raises (dbs i0) = None"
    by auto
  obtain w' where up: "upsert_device (dbs i0) (PDict items) w = (None, w')"
    and tr: "trace w' = trace w @ attempt_events (dbs i0) items"
    using upsert_device_record [OF c0, of items w]
    by (cases "upsert_device (dbs i0) (PDict items) w") auto
  from Cons.prems have "\<forall>i < length recs. cursor_raises (dbs (Suc i0 + i)) = None \<and>
      rollback_raises (dbs (Suc i0 + i)) = None"
    by auto
  from Cons.IH [OF this, of w'] show ?case
    by (simp add: up tr upt_shift del: upt_Suc)
qed

lemma executed_append: "executed (a @ b) = executed a @ executed b"
  by (induction a rule: executed.induct) simp_all

lemma executed_attempt: "executed (attempt_events c items) = [build_data (now_created c) items]"
  by (simp add: attempt_events_def split: option.splits)

lemma executed_attempts:
  "executed (concat (map (\<lambda>i. attempt_events (d i) (r i)) js)) =
     map (\<lambda>i. build_data (now_created (d i)) (r i)) js"
  by (induction js) (simp_all add: executed_append executed_attempt)

section \<open>Sample records\<close>

lemma map_of_field_one: "n \<in> set names \<Longrightarrow> map_of (map field_one names) n = Some (PInt 1)"
  by (induction names) (auto simp: field_one_def)

lemma placeholders_split: "placeholders = butlast placeholders @ [''created_at'']"
  by (simp add: placeholders_def)

lemma full_record_bound:
  assumes "n \<in> set placeholders"
  shows "\<exists>v. map_of (build_data now full_record) n = Some v \<and> never v = None"
proof (cases "n = ''created_at''")
  case True
  then show ?thesis by (simp add: map_of_build_data never_def)
next
  case False
  with assms have "n \<in> set (butlast placeholders)"
    by (subst (asm) placeholders_split) simp
  then have "map_of full_record n = Some (PInt 1)"
    unfolding full_record_def by (rule map_of_field_one)
  then show ?thesis by (simp add: map_of_build_data never_def)
qed

lemma bind_full_record:
  "\<exists>row. bind_params never placeholders (build_data now full_record) = Inr row"
  using bind_params_present [of placeholders "build_data now full_record" never] full_record_bound
  by blast

lemma insert_error_full_record:
  "insert_error db_ok full_record = None"
  "insert_error db_refuses full_record = Some DatabaseError"
  "insert_error db_lost full_record = Some OperationalError"
  using bind_full_record [of clock0]
  by (auto simp: insert_error_def db_ok_def db_refuses_def db_lost_def never_def always_def)

lemma insert_error_scenario:
  "insert_error db_ok scenario_record = Some (KeyError ''assetname'')"
  by (simp add: insert_error_def db_ok_def placeholders_def map_of_build_data scenario_record_def
      never_def safe_def)

text \<open>
  Claim C4, as amended. For a response with \<open>N\<close> device records, as long as every call of
  \<^verbatim>\<open>conn.cursor()\<close> and every call of \<^verbatim>\<open>conn.rollback()\<close> returns, no exception leaves
  the loop and exactly \<open>N\<close> statements are executed, one per record in the order of the
  response, each with the data of its own record. What the loop does for record \<open>i\<close> depends
  on that record and on what the store does during that call only: when its insert fails,
  the rollback and the log line \<^verbatim>\<open>DB ERROR\<close> follow, and the next record is attempted all
  the same.
\<close>

theorem each_record_attempted:
  assumes "\<forall>i < length recs. cursor_raises (dbs (i0 + i)) = None \<and>
             rollback_raises (dbs (i0 + i)) = None"
  shows "fst (for_devices dbs i0 (map PDict recs) w) = None \<and>
         trace (snd (for_devices dbs i0 (map PDict recs) w)) =
           trace w @ concat (map (\<lambda>i. attempt_events (dbs (i0 + i)) (recs ! i)) [0..<length recs]) \<and>
         executed (trace (snd (for_devices dbs i0 (map PDict recs) w))) =
           executed (trace w) @
             map (\<lambda>i. build_data (now_created (dbs (i0 + i))) (recs ! i)) [0..<length recs] \<and>
         length (executed (trace (snd (for_devices dbs i0 (map PDict recs) w)))) =
           length (executed (trace w)) + length recs"
  using for_devices_records [OF assms, of w]
  by (simp add: executed_append executed_attempts)

theorem each_record_attempted_witness:
  "fst (for_devices db_first_refused 0 [PDict full_record, PDict full_record] world0) = None \<and>
   trace (snd (for_devices db_first_refused 0 [PDict full_record, PDict full_record] world0)) =
     [Executed (build_data clock0 full_record), RolledBack, Printed (DbError DatabaseError),
      Executed (build_data clock0 full_record), Committed, Printed (Inserted (PInt 1) clock0)]"
proof -
  have imei: "dict_get full_record ''imei'' = PInt 1"
    by (simp add: dict_get_def full_record_def placeholders_def field_one_def)
  have two: "[0..<length [full_record, full_record]] = [0, 1]"
    by (simp add: upt_conv_Cons)
  have ok: "\<forall>i < length [full_record, full_record].
      cursor_raises (db_first_refused (0 + i)) = None \<and>
      rollback_raises (db_first_refused (0 + i)) = None"
    by (simp add: db_first_refused_def db_refuses_def db_ok_def)
  have clock: "now_created db_ok = clock0" "now_logged db_ok = clock0"
      "now_created db_refuses = clock0" "now_logged db_refuses = clock0"
    by (simp_all add: db_refuses_def db_ok_def)
  have dbs: "db_first_refused 0 = db_refuses" "db_first_refused (Suc 0) = db_ok"
    by (simp_all add: db_first_refused_def)
  have "trace world0 = []"
    by (simp add: world0_def)
  then show ?thesis
    using each_record_attempted [OF ok, of world0]
    by (simp add: two attempt_events_def dbs insert_error_full_record imei clock
        del: for_devices.simps)
qed

text \<open>
  Claim C4 as stated fails when the connection is lost: the statement of the first of two
  records raises, the rollback on the closed connection raises as well, that exception
  leaves \<^verbatim>\<open>upsert_device\<close> and the loop, and the second record is never attempted. One
  statement is executed, not two; nothing is rolled back and no \<^verbatim>\<open>DB ERROR\<close> is logged.
\<close>

theorem lost_connection_counterexample:
  "fst (for_devices db_all_lost 0 [PDict full_record, PDict full_record] world0)
     = Some InterfaceError \<and>
   trace (snd (for_devices db_all_lost 0 [PDict full_record, PDict full_record] world0))
     = [Executed (build_data clock0 full_record)] \<and>
   length (executed (trace (snd (for_devices db_all_lost 0
      [PDict full_record, PDict full_record] world0)))) = 1"
proof -
  have c: "cursor_raises db_lost = None" and r: "rollback_raises db_lost = Some InterfaceError"
    and n: "now_created db_lost = clock0"
    by (simp_all add: db_lost_def db_ok_def)
  have 1: "fst (upsert_device db_lost (PDict full_record) world0) = Some InterfaceError"
    by (simp add: upsert_device_escapes [OF c] insert_error_full_record r)
  have 2: "trace (snd (upsert_device db_lost (PDict full_record) world0)) =
      [Executed (build_data clock0 full_record)]"
    by (simp add: upsert_device_trace [OF c] insert_error_full_record r n world0_def)
  show ?thesis
    using 1 2
    by (cases "upsert_device db_lost (PDict full_record) world0")
      (simp add: db_all_lost_def)
qed

section \<open>A record that lacks a field\<close>

lemma missing_field_no_row:
  assumes "name \<in> set placeholders" and "name \<notin> {''gpsiat'', ''bmsiat'', ''created_at''}"
    and "map_of items name = None"
  shows "rows (snd (upsert_device c (PDict items) w)) = rows w"
proof -
  have "map_of (build_data (now_created c) items) name = None"
    using assms(2,3) by (simp add: map_of_build_data)
  with assms(1) obtain e where
    "bind_params (adapt_raises c) placeholders (build_data (now_created c) items) = Inl e"
    using bind_params_missing by blast
  then show ?thesis
    by (auto simp: upsert_device_def try_insert_def py_items_def Let_def emit_def
        cursor_close_def split: option.splits)
qed

text \<open>
  Claim C3 does not hold of the code. The record of the specification's end-to-end scenario
  has \<^verbatim>\<open>imei\<close>, \<^verbatim>\<open>gpsiat\<close>, \<^verbatim>\<open>latitude\<close> and \<^verbatim>\<open>voltage\<close> only. Its \<^verbatim>\<open>voltage\<close> of
  \<^verbatim>\<open>None\<close> becomes 0, but the missing \<^verbatim>\<open>assetname\<close> is not filled in: the statement
  cannot be bound (\<^verbatim>\<open>KeyError\<close>), the transaction is rolled back, and no row is inserted,
  with a store on which nothing fails.
\<close>

theorem scenario_record_not_inserted:
  "map_of scenario_record ''assetname'' = None \<and>
   map_of (build_data clock0 scenario_record) ''voltage'' = Some (PInt 0) \<and>
   fst (upsert_device db_ok (PDict scenario_record) world0) = None \<and>
   rows (snd (upsert_device db_ok (PDict scenario_record) world0)) = [] \<and>
   trace (snd (upsert_device db_ok (PDict scenario_record) world0)) =
     [Executed (build_data clock0 scenario_record), RolledBack,
      Printed (DbError (KeyError ''assetname''))]"
proof -
  have c: "cursor_raises db_ok = None" and r: "rollback_raises db_ok = None"
    and n: "now_created db_ok = clock0"
    by (simp_all add: db_ok_def)
  have 1: "fst (upsert_device db_ok (PDict scenario_record) world0) = None"
    by (simp add: upsert_device_escapes [OF c] insert_error_scenario r)
  have 2: "trace (snd (upsert_device db_ok (PDict scenario_record) world0)) =
     [Executed (build_data clock0 scenario_record), RolledBack,
      Printed (DbError (KeyError ''assetname''))]"
    by (simp add: upsert_device_trace [OF c] insert_error_scenario r n world0_def
        attempt_events_def)
  have 3: "rows (snd (upsert_device db_ok (PDict scenario_record) world0)) = []"
    using insert_error_scenario
    by (auto simp: upsert_device_def try_insert_def py_items_def insert_error_def Let_def
        emit_def cursor_close_def world0_def c r split: sum.splits option.splits)
  have 4: "map_of (build_data clock0 scenario_record) ''voltage'' = Some (PInt 0)"
    by (simp add: map_of_build_data scenario_record_def safe_def)
  show ?thesis
    using 1 2 3 4 by (simp add: scenario_record_def)
qed

section \<open>One iteration\<close>










lemma tick_body_fetch_fails:
  "connect_raises env = None \<Longrightarrow> fetch_api_data (api_secret env) (post env) = Inl e \<Longrightarrow>
     tick_body env w = (Some e, w\<lparr>open_conns := open_conns w + 1\<rparr>)"
  by (simp add: tick_body_def)

lemma fetch_timeout:
  "fetch_api_data k (post_gives (Raises RequestException)) = Inl RequestException"
  by (simp add: fetch_api_data_def post_gives_def)



section \<open>Connections\<close>

lemma connection_left_open:
  assumes "connect_raises env = None" and "fetch_api_data (api_secret env) (post env) = Inl e"
  shows "open_conns (tick env w) = open_conns w + 1"
  using assms by (simp add: tick_def tick_body_fetch_fails emit_def)

lemma try_insert_open_conns: "open_conns (snd (try_insert c device w)) = open_conns w"
  by (auto simp: try_insert_def emit_def Let_def split: sum.splits option.splits)

lemma upsert_device_open_conns: "open_conns (snd (upsert_device c device w)) = open_conns w"
proof (cases "cursor_raises c")
  case (Some e)
  then show ?thesis by (simp add: upsert_device_def)
next
  case None
  obtain r w1 where t: "try_insert c device (w\<lparr>open_cursors := open_cursors w + 1\<rparr>) = (r, w1)"
    by (cases "try_insert c device (w\<lparr>open_cursors := open_cursors w + 1\<rparr>)")
  then have "open_conns w1 = open_conns w"
    using try_insert_open_conns [of c device "w\<lparr>open_cursors := open_cursors w + 1\<rparr>"] by simp
  with None t show ?thesis
    by (cases r; cases "rollback_raises c")
      (simp_all add: upsert_device_def cursor_close_def emit_def)
qed

lemma for_devices_open_conns:
  "open_conns (snd (for_devices dbs i devices w)) = open_conns w"
proof (induction devices arbitrary: i w)
  case Nil
  then show ?case by simp
next
  case (Cons device devices)
  obtain r w' where u: "upsert_device (dbs i) device w = (r, w')"
    by (cases "upsert_device (dbs i) device w")
  then have "open_conns w' = open_conns w"
    using upsert_device_open_conns [of "dbs i" device w] by simp
  with u Cons.IH [of "Suc i" w'] show ?case
    by (cases r) simp_all
qed

text \<open>The connection is closed in the iterations whose body runs to its end, and only in those.\<close>

lemma connection_closed_iff_no_exception:
  assumes "connect_raises env = None"
  shows "open_conns (tick env w) =
           (if fst (tick_body env w) = None then open_conns w else open_conns w + 1)"
proof -
  have fd: "open_conns w2 = Suc (open_conns w)"
    if "for_devices (db env) 0 ds (w\<lparr>open_conns := Suc (open_conns w)\<rparr>) = (r, w2)"
    for ds r w2
    using for_devices_open_conns [of "db env" 0 ds "w\<lparr>open_conns := Suc (open_conns w)\<rparr>"]
      that
    by simp
  show ?thesis
    using assms
    by (auto simp: tick_def tick_body_def Let_def emit_def dest: fd
        split: sum.splits option.splits prod.splits)
qed

text \<open>
  Claim C6 does not hold of the code. \<^verbatim>\<open>conn.close()\<close> is the last statement of the
  \<^verbatim>\<open>try\<close>, not a \<^verbatim>\<open>finally\<close>: in an iteration whose connection is opened and whose
  fetch times out, the handler logs the error and the iteration ends with the connection
  still open.
\<close>

theorem timeout_leaves_connection_open:
  "open_conns world0 = 0 \<and>
   open_conns (tick \<lparr>api_secret = PStr (str ''secret''), connect_raises = None,
       post = post_gives (Raises RequestException), db = db_all_ok\<rparr> world0) = 1 \<and>
   trace (tick \<lparr>api_secret = PStr (str ''secret''), connect_raises = None,
       post = post_gives (Raises RequestException), db = db_all_ok\<rparr> world0) =
     [Printed (MainLoopError RequestException), Slept 10]"
  by (simp add: tick_def tick_body_def fetch_timeout emit_def world0_def)

section \<open>A response without the field\<close>

lemma raise_for_status_2xx: "200 \<le> code \<Longrightarrow> code < 300 \<Longrightarrow> raise_for_status code = None"
  by (simp add: raise_for_status_def)

text \<open>
  Claim C10, as amended. For a response with a 2xx status whose body is a JSON object
  without the field \<^verbatim>\<open>data\<close>, the fetcher returns the empty list; when the connection
  was opened, the iteration then executes no statement, logs no error, closes the
  connection and sleeps: the world is as before, but for the sleep.
\<close>

theorem object_without_data_is_empty_list:
  assumes "post env (api_request (api_secret env)) = Response code (Some (PDict kv))"
    and "200 \<le> code" and "code < 300" and "map_of kv ''data'' = None"
  shows "fetch_api_data (api_secret env) (post env) = Inr (PList []) \<and>
         (connect_raises env = None \<longrightarrow> tick env w = w\<lparr>trace := trace w @ [Slept 10]\<rparr>)"
proof -
  have f: "fetch_api_data (api_secret env) (post env) = Inr (PList [])"
    using assms by (simp add: fetch_api_data_def raise_for_status_2xx py_get_def)
  have "tick env w = w\<lparr>trace := trace w @ [Slept 10]\<rparr>" if "connect_raises env = None"
    using that by (simp add: tick_def tick_body_def f py_iter_def emit_def)
  with f show ?thesis by simp
qed

theorem object_without_data_is_empty_list_witness:
  "fetch_api_data PNone (post_gives (Response 200 (Some (PDict [(''status'', PStr (str ''ok''))]))))
     = Inr (PList []) \<and>
   tick \<lparr>api_secret = PNone, connect_raises = None,
       post = post_gives (Response 200 (Some (PDict [(''status'', PStr (str ''ok''))]))),
       db = db_all_ok\<rparr> world0 = world0\<lparr>trace := [Slept 10]\<rparr>"
  using object_without_data_is_empty_list [of "\<lparr>api_secret = PNone, connect_raises = None,
       post = post_gives (Response 200 (Some (PDict [(''status'', PStr (str ''ok''))]))),
       db = db_all_ok\<rparr>" 200 "[(''status'', PStr (str ''ok''))]" world0]
  by (simp add: post_gives_def world0_def)

text \<open>
  Claim C10 as stated fails on a body that is valid JSON but not an object: the array
  \<^verbatim>\<open>[]\<close> has no field \<^verbatim>\<open>data\<close> and no method \<^verbatim>\<open>get\<close>, so the fetcher raises
  \<^verbatim>\<open>AttributeError\<close> and the iteration is logged as failed.
\<close>

theorem array_body_counterexample:
  "fetch_api_data PNone (post_gives (Response 200 (Some (PList [])))) = Inl AttributeError \<and>
   trace (tick \<lparr>api_secret = PNone, connect_raises = None,
       post = post_gives (Response 200 (Some (PList []))), db = db_all_ok\<rparr> world0) =
     [Printed (MainLoopError AttributeError), Slept 10]"
  by (simp add: tick_def tick_body_def fetch_api_data_def post_gives_def raise_for_status_def
      py_get_def emit_def world0_def)

section \<open>The liveness probe\<close>

text \<open>
  Claim C9. Every request to \<^verbatim>\<open>GET /\<close> is answered with status 200 and the payload
  \<^verbatim>\<open>{"status": "ok", "service": "vizvolt-ingestion"}\<close>, whatever the request and whatever
  the state of the poll loop.
\<close>

theorem get_root_constant:
  "get_root request w =
     (200, PDict [(''status'', PStr (str ''ok'')), (''service'', PStr (str ''vizvolt-ingestion''))])"
  by (simp add: get_root_def health_def)

end
